theory Spec2Isabelle
  imports Main "HOL-Library.Word"
begin

section \<open>Resource scanning and packaging (actor/v2action/resource.go)\<close>

text \<open>
  A shallow embedding of \<^verbatim>\<open>actor/v2action/resource.go\<close>. The functions of the file
  are translated one by one; what they call in the Go standard library and in the
  operating system (the file system, \<^verbatim>\<open>archive/zip\<close>, \<^verbatim>\<open>crypto/sha1\<close>,
  \<^verbatim>\<open>path/filepath\<close>) is the environment, given as data: every call that can fail
  carries its outcome, an error or a value.
\<close>

subsection \<open>Data model\<close>

text \<open>
  Go errors. An error of the operating system or of a library is an \<^verbatim>\<open>oserror\<close>,
  with its text. The file passes such an error on unchanged (\<^verbatim>\<open>IOError\<close>) and
  declares one error type of its own, \<^verbatim>\<open>FileChangedError{Filename}\<close>.
  \<^verbatim>\<open>Panic\<close> stands for a run-time panic, which nothing in the file recovers.
\<close>

datatype oserror = OSError string

datatype error = IOError oserror | FileChangedError string | Panic string

text \<open>\<^verbatim>\<open>os.FileMode\<close> is a \<^verbatim>\<open>uint32\<close>.\<close>

type_synonym FileMode = "32 word"

definition DefaultFolderPermissions :: FileMode where
  "DefaultFolderPermissions = 493" \<comment> \<open>octal 0755\<close>

definition DefaultArchiveFilePermissions :: FileMode where
  "DefaultArchiveFilePermissions = 484" \<comment> \<open>octal 0744\<close>

text \<open>
  \<^verbatim>\<open>type Resource ccv2.Resource\<close>: the fields the file uses. \<^verbatim>\<open>Size\<close> is an
  \<^verbatim>\<open>int64\<close>; no arithmetic is done on it, so it is an integer here.
\<close>

record Resource =
  Filename :: string
  Mode :: FileMode
  SHA1 :: string
  Size :: int

text \<open>The zero value \<^verbatim>\<open>Resource{}\<close>.\<close>

definition Resource0 :: Resource where
  "Resource0 = \<lparr>Filename = [], Mode = 0, SHA1 = [], Size = 0\<rparr>"

text \<open>
  \<^verbatim>\<open>os.FileInfo\<close> is an interface; the methods the file (and the library code it
  hands the value to) calls are fields here.
\<close>

record FileInfo =
  fiName :: string
  fiSize :: int
  fiMode :: FileMode
  fiIsDir :: bool

text \<open>
  An \<^verbatim>\<open>io.Reader\<close> is read once, to its end, by \<^verbatim>\<open>io.Copy\<close>: the outcome of that
  copy is an error or the bytes transferred.
\<close>

type_synonym Reader = "oserror + string"

text \<open>An opened \<^verbatim>\<open>*os.File\<close>: what \<^verbatim>\<open>Stat\<close> returns and what reading it gives.\<close>

record OsFile =
  fStat :: "oserror + FileInfo"
  fRead :: Reader

text \<open>
  A \<^verbatim>\<open>*zip.File\<close> of a \<^verbatim>\<open>zip.Reader\<close>: its name, its \<^verbatim>\<open>FileInfo()\<close> and
  the result of \<^verbatim>\<open>Open()\<close>.
\<close>

record zipFile =
  zName :: string
  zInfo :: FileInfo
  zOpen :: "oserror + Reader"

text \<open>
  What a \<^verbatim>\<open>zip.Writer\<close> is given. A \<^verbatim>\<open>zip.FileHeader\<close> with the fields the file
  sets; \<^verbatim>\<open>SetMode\<close> stores the mode in the header's attribute field, kept here as
  the mode itself. An entry is its header and the bytes written after it; the writer is
  the entries in the order of their creation.
\<close>

datatype Method = Store | Deflate

record FileHeader =
  hName :: string
  hMethod :: Method
  hMode :: FileMode

record zipEntry =
  eHeader :: FileHeader
  eBody :: string

type_synonym zipWriter = "zipEntry list"

text \<open>
  The file system as \<^verbatim>\<open>filepath.Walk\<close> sees it below a root: at every path the
  result of \<^verbatim>\<open>os.Lstat\<close>, of \<^verbatim>\<open>os.Open\<close>, and of reading the directory's names
  (in the lexical order in which Walk takes them), with what each name leads to.
\<close>

datatype fsnode =
  FsNode (nLstat: "oserror + FileInfo") (nOpen: "oserror + OsFile")
         (nReadDir: "oserror + (string \<times> fsnode) list")

text \<open>
  The environment of one call. \<^verbatim>\<open>fixMode\<close> is a function of this package whose
  source is in a file per operating system; it is a parameter here, as are the digest
  (\<^verbatim>\<open>fmt.Sprintf("%x", sha1 of the bytes)\<close>), the path separator and
  \<^verbatim>\<open>filepath.Join\<close> of the host, the opening of a path, the archive reader of package
  \<^verbatim>\<open>ykk\<close>, the temporary file, the two calls of \<^verbatim>\<open>archive/zip\<close> that can
  fail while an entry is created, and the mode that \<^verbatim>\<open>archive/zip\<close> decodes from
  the attributes into which \<^verbatim>\<open>SetMode\<close> encoded one.
\<close>

record World =
  Separator :: char
  Join :: "string \<Rightarrow> string \<Rightarrow> string"
  sha1hex :: "string \<Rightarrow> string"
  fixMode :: "FileMode \<Rightarrow> FileMode"
  osOpen :: "string \<Rightarrow> oserror + OsFile"
  fsAt :: "string \<Rightarrow> fsnode"
  ykkNewReader :: "OsFile \<Rightarrow> int \<Rightarrow> oserror + zipFile list"
  TempFile :: "oserror + string"
  FileInfoHeaderErr :: "FileInfo \<Rightarrow> oserror option"
  CreateHeaderErr :: "zipWriter \<Rightarrow> FileHeader \<Rightarrow> oserror option"
  zipDecodeMode :: "FileMode \<Rightarrow> FileMode"

subsection \<open>Library calls\<close>

text \<open>\<^verbatim>\<open>strings.HasSuffix\<close>.\<close>

definition HasSuffix :: "string \<Rightarrow> string \<Rightarrow> bool" where
  "HasSuffix s suf \<longleftrightarrow>
     length suf \<le> length s \<and> drop (length s - length suf) s = suf"

text \<open>
  \<^verbatim>\<open>filepath.ToSlash\<close>: every separator of the host becomes a slash (nothing changes
  where the separator is the slash).
\<close>

definition ToSlash :: "World \<Rightarrow> string \<Rightarrow> string" where
  "ToSlash W p = map (\<lambda>c. if c = Separator W then CHR ''/'' else c) p"

text \<open>
  \<^verbatim>\<open>zip.FileInfoHeader\<close> fills a header from a \<^verbatim>\<open>FileInfo\<close>: its name, the method
  left at zero (\<^verbatim>\<open>Store\<close>), its mode. \<^verbatim>\<open>SetMode\<close> replaces the mode.
  \<^verbatim>\<open>CreateHeader\<close> starts a new entry and returns the writer of its body.
\<close>

definition FileInfoHeader :: "World \<Rightarrow> FileInfo \<Rightarrow> oserror + FileHeader" where
  "FileInfoHeader W fi =
     (case FileInfoHeaderErr W fi of
        Some e \<Rightarrow> Inl e
      | None \<Rightarrow> Inr \<lparr>hName = fiName fi, hMethod = Store, hMode = fiMode fi\<rparr>)"

definition SetMode :: "FileHeader \<Rightarrow> FileMode \<Rightarrow> FileHeader" where
  "SetMode header mode = header\<lparr>hMode := mode\<rparr>"

definition CreateHeader :: "World \<Rightarrow> zipWriter \<Rightarrow> FileHeader \<Rightarrow> oserror + zipWriter" where
  "CreateHeader W zipFile header =
     (case CreateHeaderErr W zipFile header of
        Some e \<Rightarrow> Inl e
      | None \<Rightarrow> Inr (zipFile @ [\<lparr>eHeader = header, eBody = []\<rparr>]))"

text \<open>Writing to the writer \<^verbatim>\<open>CreateHeader\<close> returned: the bytes go to the last entry.\<close>

definition writeBody :: "zipWriter \<Rightarrow> string \<Rightarrow> zipWriter" where
  "writeBody zipFile bytes =
     (case rev zipFile of
        [] \<Rightarrow> []
      | e # earlier \<Rightarrow> rev earlier @ [e\<lparr>eBody := eBody e @ bytes\<rparr>])"

text \<open>
  \<^verbatim>\<open>filepath.Walk\<close> hands its function the root extended by names; such a path is
  kept as the list of these names, with the node it leads to. \<^verbatim>\<open>filepath.Rel\<close> of
  the root and such a path is \<^verbatim>\<open>"."\<close> for the root itself and otherwise the names
  joined by the separator; on these paths it does not fail.
\<close>

fun joinSep :: "char \<Rightarrow> string list \<Rightarrow> string" where
  "joinSep sep [] = []"
| "joinSep sep [name] = name"
| "joinSep sep (name # names) = name @ sep # joinSep sep names"

definition Rel :: "World \<Rightarrow> string list \<Rightarrow> oserror + string" where
  "Rel W path = Inr (if path = [] then ''.'' else joinSep (Separator W) path)"

text \<open>
  \<^verbatim>\<open>filepath.Walk\<close> and its \<^verbatim>\<open>walk\<close>, as in the Go releases this file was written
  for. The function walked with is called for a path with the \<^verbatim>\<open>FileInfo\<close> (none
  when \<^verbatim>\<open>Lstat\<close> failed) and an error or none; what it changes is threaded through as
  a state. It gets the node too, for the calls it makes on the path.
  \<^verbatim>\<open>
  func walk(path string, info os.FileInfo, walkFn WalkFunc) error {
      err := walkFn(path, info, nil)
      if err != nil { ...; return err }
      if !info.IsDir() { return nil }
      names, err := readDirNames(path)
      if err != nil { return walkFn(path, info, err) }
      for _, name := range names {
          filename := Join(path, name)
          fileInfo, err := lstat(filename)
          if err != nil {
              if err := walkFn(filename, fileInfo, err); err != nil && err != SkipDir { return err }
          } else {
              err = walk(filename, fileInfo, walkFn)
              if err != nil { if !fileInfo.IsDir() || err != SkipDir { return err } }
          }
      }
      return nil
  }
  \<close>
  No error of this model is \<^verbatim>\<open>SkipDir\<close>.
\<close>

type_synonym 's WalkFunc =
  "string list \<Rightarrow> fsnode \<Rightarrow> FileInfo option \<Rightarrow> oserror option \<Rightarrow> 's \<Rightarrow> 's \<times> error option"

fun walk :: "'s WalkFunc \<Rightarrow> string list \<Rightarrow> fsnode \<Rightarrow> FileInfo \<Rightarrow> 's \<Rightarrow> 's \<times> error option"
and walkNames ::
  "'s WalkFunc \<Rightarrow> string list \<Rightarrow> (string \<times> fsnode) list \<Rightarrow> 's \<Rightarrow> 's \<times> error option"
where
  "walk walkFn path (FsNode l opn rd) info s =
     (case walkFn path (FsNode l opn rd) (Some info) None s of
        (s1, Some err) \<Rightarrow> (s1, Some err)
      | (s1, None) \<Rightarrow>
          if \<not> fiIsDir info then (s1, None)
          else (case rd of
                  Inl err \<Rightarrow> walkFn path (FsNode l opn rd) (Some info) (Some err) s1
                | Inr names \<Rightarrow> walkNames walkFn path names s1))"
| "walkNames walkFn path [] s = (s, None)"
| "walkNames walkFn path ((name, child) # names) s =
     (case nLstat child of
        Inl err \<Rightarrow>
          (case walkFn (path @ [name]) child None (Some err) s of
             (s1, Some err1) \<Rightarrow> (s1, Some err1)
           | (s1, None) \<Rightarrow> walkNames walkFn path names s1)
      | Inr fileInfo \<Rightarrow>
          (case walk walkFn (path @ [name]) child fileInfo s of
             (s1, Some err1) \<Rightarrow> (s1, Some err1)
           | (s1, None) \<Rightarrow> walkNames walkFn path names s1))"

definition Walk :: "World \<Rightarrow> string \<Rightarrow> 's WalkFunc \<Rightarrow> 's \<Rightarrow> 's \<times> error option" where
  "Walk W root walkFn s =
     (let node = fsAt W root in
      case nLstat node of
        Inl err \<Rightarrow> walkFn [] node None (Some err) s
      | Inr info \<Rightarrow> walk walkFn [] node info s)"

text \<open>
  Reading an archive that a \<^verbatim>\<open>zip.Writer\<close> wrote: an entry comes back under its
  name, with the bytes written and their number as its size. Its mode is the one
  decoded from the header, with \<^verbatim>\<open>os.ModeDir\<close> added when the name ends in a slash;
  \<^verbatim>\<open>IsDir\<close> is that bit. \<^verbatim>\<open>Name()\<close> is \<^verbatim>\<open>path.Base\<close> of the name.
\<close>

definition ModeDir :: FileMode where
  "ModeDir = 2147483648" \<comment> \<open>\<^verbatim>\<open>1 << 31\<close>\<close>

definition Base :: "string \<Rightarrow> string" where
  "Base p =
     (if p = [] then ''.''
      else let q = rev (dropWhile (\<lambda>c. c = CHR ''/'') (rev p));
               b = rev (takeWhile (\<lambda>c. c \<noteq> CHR ''/'') (rev q))
           in if b = [] then ''/'' else b)"

definition zipReadBack :: "World \<Rightarrow> zipEntry \<Rightarrow> zipFile" where
  "zipReadBack W e =
     (let name = hName (eHeader e);
          mode = or (zipDecodeMode W (hMode (eHeader e)))
                    (if name \<noteq> [] \<and> last name = CHR ''/'' then ModeDir else 0)
      in \<lparr>zName = name,
          zInfo = \<lparr>fiName = Base name, fiSize = int (length (eBody e)), fiMode = mode,
                   fiIsDir = (and mode ModeDir \<noteq> 0)\<rparr>,
          zOpen = Inr (Inr (eBody e))\<rparr>)"

subsection \<open>findInResources\<close>

text \<open>
  \<^verbatim>\<open>
  for _, resource := range filesToInclude {
      if resource.Filename == path { return resource }
  }
  return Resource{}
  \<close>
\<close>

fun findInResources :: "string \<Rightarrow> Resource list \<Rightarrow> Resource" where
  "findInResources path [] = Resource0"
| "findInResources path (resource # filesToInclude) =
     (if Filename resource = path then resource
      else findInResources path filesToInclude)"

subsection \<open>addFileToZipFromFileSystem\<close>

text \<open>
  The header is made from \<^verbatim>\<open>fileInfo\<close>; a directory's destination path gets a
  closing slash if it has none; name, method and mode are set; the entry is created;
  for anything but a directory the source is copied through
  \<^verbatim>\<open>io.MultiWriter(sum, destFileWriter)\<close>, so the bytes hashed are the bytes written,
  and the digest is compared with \<^verbatim>\<open>sha1Sum\<close>. On an error the function returns only
  the error: the writer is not looked at again by its callers.
\<close>

definition addFileToZipFromFileSystem ::
  "World \<Rightarrow> string \<Rightarrow> Reader \<Rightarrow> FileInfo \<Rightarrow> string \<Rightarrow> string \<Rightarrow> FileMode \<Rightarrow> zipWriter
     \<Rightarrow> error + zipWriter" where
  "addFileToZipFromFileSystem W srcPath srcFile fileInfo destPath sha1Sum mode zipFile =
     (case FileInfoHeader W fileInfo of
        Inl err \<Rightarrow> Inl (IOError err)
      | Inr header \<Rightarrow>
          let destPath' = (if fiIsDir fileInfo \<and> \<not> HasSuffix destPath ''/''
                           then destPath @ ''/'' else destPath);
              header1 = header\<lparr>hName := destPath'\<rparr>;
              header2 = header1\<lparr>hMethod := Deflate\<rparr>;
              header3 = SetMode header2 mode
          in (case CreateHeader W zipFile header3 of
                Inl err \<Rightarrow> Inl (IOError err)
              | Inr destFileWriter \<Rightarrow>
                  if \<not> fiIsDir fileInfo then
                    (case srcFile of
                       Inl err \<Rightarrow> Inl (IOError err)
                     | Inr bytes \<Rightarrow>
                         let currentSum = sha1hex W bytes in
                         if sha1Sum \<noteq> currentSum then Inl (FileChangedError srcPath)
                         else Inr (writeBody destFileWriter bytes))
                  else Inr destFileWriter))"

subsection \<open>newArchiveReader\<close>

definition newArchiveReader :: "World \<Rightarrow> OsFile \<Rightarrow> oserror + zipFile list" where
  "newArchiveReader W archive =
     (case fStat archive of
        Inl err \<Rightarrow> Inl err
      | Inr info \<Rightarrow> ykkNewReader W archive (fiSize info))"

subsection \<open>ZipArchiveResources\<close>

text \<open>The loop over \<^verbatim>\<open>reader.File\<close>, with the writer as its state.\<close>

fun zipArchiveLoop :: "World \<Rightarrow> Resource list \<Rightarrow> zipFile list \<Rightarrow> zipWriter \<Rightarrow> error + zipWriter" where
  "zipArchiveLoop W filesToInclude [] writer = Inr writer"
| "zipArchiveLoop W filesToInclude (archiveFile # files) writer =
     (let resource = findInResources (zName archiveFile) filesToInclude in
      case zOpen archiveFile of
        Inl openErr \<Rightarrow> Inl (IOError openErr)
      | Inr reader \<Rightarrow>
          (case addFileToZipFromFileSystem W
                  (zName archiveFile) reader (zInfo archiveFile)
                  (zName archiveFile) (SHA1 resource) (Mode resource) writer of
             Inl err \<Rightarrow> Inl err
           | Inr writer' \<Rightarrow> zipArchiveLoop W filesToInclude files writer'))"

text \<open>
  The result is the name of the temporary file; with it the model returns what the
  writer has put there, the new archive.
\<close>

definition ZipArchiveResources ::
  "World \<Rightarrow> string \<Rightarrow> Resource list \<Rightarrow> error + (string \<times> zipWriter)" where
  "ZipArchiveResources W sourceArchivePath filesToInclude =
     (case TempFile W of
        Inl err \<Rightarrow> Inl (IOError err)
      | Inr zipFileName \<Rightarrow>
          (case osOpen W sourceArchivePath of
             Inl err \<Rightarrow> Inl (IOError err)
           | Inr source \<Rightarrow>
               (case newArchiveReader W source of
                  Inl err \<Rightarrow> Inl (IOError err)
                | Inr reader \<Rightarrow>
                    (case zipArchiveLoop W filesToInclude reader [] of
                       Inl err \<Rightarrow> Inl err
                     | Inr writer \<Rightarrow> Inr (zipFileName, writer)))))"

subsection \<open>ZipDirectoryResources\<close>

fun zipDirectoryLoop :: "World \<Rightarrow> string \<Rightarrow> Resource list \<Rightarrow> zipWriter \<Rightarrow> error + zipWriter" where
  "zipDirectoryLoop W sourceDir [] writer = Inr writer"
| "zipDirectoryLoop W sourceDir (resource # filesToInclude) writer =
     (let fullPath = Join W sourceDir (Filename resource) in
      case osOpen W fullPath of
        Inl err \<Rightarrow> Inl (IOError err)
      | Inr srcFile \<Rightarrow>
          (case fStat srcFile of
             Inl err \<Rightarrow> Inl (IOError err)
           | Inr fileInfo \<Rightarrow>
               (case addFileToZipFromFileSystem W
                       fullPath (fRead srcFile) fileInfo
                       (Filename resource) (SHA1 resource) (Mode resource) writer of
                  Inl err \<Rightarrow> Inl err
                | Inr writer' \<Rightarrow> zipDirectoryLoop W sourceDir filesToInclude writer')))"

definition ZipDirectoryResources ::
  "World \<Rightarrow> string \<Rightarrow> Resource list \<Rightarrow> error + (string \<times> zipWriter)" where
  "ZipDirectoryResources W sourceDir filesToInclude =
     (case TempFile W of
        Inl err \<Rightarrow> Inl (IOError err)
      | Inr zipFileName \<Rightarrow>
          (case zipDirectoryLoop W sourceDir filesToInclude [] of
             Inl err \<Rightarrow> Inl err
           | Inr writer \<Rightarrow> Inr (zipFileName, writer)))"

subsection \<open>GatherArchiveResources\<close>

text \<open>The loop over \<^verbatim>\<open>reader.File\<close>, with \<^verbatim>\<open>resources\<close> as its state.\<close>

fun gatherArchiveLoop :: "World \<Rightarrow> zipFile list \<Rightarrow> Resource list \<Rightarrow> error + Resource list" where
  "gatherArchiveLoop W [] resources = Inr resources"
| "gatherArchiveLoop W (archivedFile # files) resources =
     (let resource = Resource0\<lparr>Filename := ToSlash W (zName archivedFile)\<rparr> in
      if fiIsDir (zInfo archivedFile) then
        gatherArchiveLoop W files
          (resources @ [resource\<lparr>Mode := DefaultFolderPermissions\<rparr>])
      else
        (case zOpen archivedFile of
           Inl err \<Rightarrow> Inl (IOError err)
         | Inr fileReader \<Rightarrow>
             (case fileReader of
                Inl err \<Rightarrow> Inl (IOError err)
              | Inr bytes \<Rightarrow>
                  gatherArchiveLoop W files
                    (resources @ [resource\<lparr>Mode := DefaultArchiveFilePermissions,
                                           SHA1 := sha1hex W bytes,
                                           Size := fiSize (zInfo archivedFile)\<rparr>]))))"

definition GatherArchiveResources :: "World \<Rightarrow> string \<Rightarrow> error + Resource list" where
  "GatherArchiveResources W archivePath =
     (case osOpen W archivePath of
        Inl err \<Rightarrow> Inl (IOError err)
      | Inr archive \<Rightarrow>
          (case newArchiveReader W archive of
             Inl err \<Rightarrow> Inl (IOError err)
           | Inr reader \<Rightarrow> gatherArchiveLoop W reader []))"

subsection \<open>GatherDirectoryResources\<close>

text \<open>
  The function literal handed to \<^verbatim>\<open>filepath.Walk\<close>; the variable \<^verbatim>\<open>resources\<close>
  it appends to is its state. \<^verbatim>\<open>info\<close> is nil only in a call with an error.
\<close>

definition gatherWalkFn :: "World \<Rightarrow> Resource list WalkFunc" where
  "gatherWalkFn W path node info err resources =
     (case err of
        Some e \<Rightarrow> (resources, Some (IOError e))
      | None \<Rightarrow>
          (case Rel W path of
             Inl e \<Rightarrow> (resources, Some (IOError e))
           | Inr relPath \<Rightarrow>
               if relPath = ''.'' then (resources, None)
               else
                 let resource = Resource0\<lparr>Filename := ToSlash W relPath\<rparr> in
                 (case info of
                    None \<Rightarrow> (resources, Some (Panic ''nil FileInfo''))
                  | Some info \<Rightarrow>
                      if fiIsDir info then
                        (resources @ [resource\<lparr>Mode := DefaultFolderPermissions\<rparr>], None)
                      else
                        (case nOpen node of
                           Inl e \<Rightarrow> (resources, Some (IOError e))
                         | Inr file \<Rightarrow>
                             (case fRead file of
                                Inl e \<Rightarrow> (resources, Some (IOError e))
                              | Inr bytes \<Rightarrow>
                                  (resources @ [resource\<lparr>Mode := fixMode W (fiMode info),
                                                         SHA1 := sha1hex W bytes,
                                                         Size := fiSize info\<rparr>], None))))))"

text \<open>\<^verbatim>\<open>return resources, walkErr\<close>: both results, as a pair.\<close>

definition GatherDirectoryResources :: "World \<Rightarrow> string \<Rightarrow> Resource list \<times> error option" where
  "GatherDirectoryResources W sourceDir = Walk W sourceDir (gatherWalkFn W) []"

subsection \<open>Notions used in the statements\<close>

text \<open>
  An entry \<^verbatim>\<open>e\<close> of the new archive is what \<^verbatim>\<open>addFileToZipFromFileSystem\<close> makes of
  a source with the given \<^verbatim>\<open>FileInfo\<close> and content, for a destination name, a
  declared digest and a mode.
\<close>

definition packedAs ::
  "World \<Rightarrow> FileInfo \<Rightarrow> Reader \<Rightarrow> string \<Rightarrow> string \<Rightarrow> FileMode \<Rightarrow> zipEntry \<Rightarrow> bool" where
  "packedAs W fi src name sha1Sum mode e \<longleftrightarrow>
     hName (eHeader e) = (if fiIsDir fi \<and> \<not> HasSuffix name ''/'' then name @ ''/'' else name) \<and>
     hMethod (eHeader e) = Deflate \<and>
     hMode (eHeader e) = mode \<and>
     (if fiIsDir fi then eBody e = []
      else src = Inr (eBody e) \<and> sha1hex W (eBody e) = sha1Sum)"

text \<open>Opening a path and asking the opened file for its \<^verbatim>\<open>FileInfo\<close>.\<close>

definition openStat :: "World \<Rightarrow> string \<Rightarrow> (FileInfo \<times> Reader) option" where
  "openStat W fullPath =
     (case osOpen W fullPath of
        Inl err \<Rightarrow> None
      | Inr f \<Rightarrow> (case fStat f of Inl err \<Rightarrow> None | Inr fi \<Rightarrow> Some (fi, fRead f)))"

text \<open>The entry made for a descriptor of the inclusion list, packing from a directory.\<close>

definition dirPacked :: "World \<Rightarrow> string \<Rightarrow> Resource \<Rightarrow> zipEntry \<Rightarrow> bool" where
  "dirPacked W sourceDir r e \<longleftrightarrow>
     (case openStat W (Join W sourceDir (Filename r)) of
        None \<Rightarrow> False
      | Some (fi, src) \<Rightarrow> packedAs W fi src (Filename r) (SHA1 r) (Mode r) e)"

text \<open>The entry made for an entry of the source archive, packing from an archive.\<close>

definition archPacked :: "World \<Rightarrow> Resource list \<Rightarrow> zipFile \<Rightarrow> zipEntry \<Rightarrow> bool" where
  "archPacked W filesToInclude f e \<longleftrightarrow>
     (case zOpen f of
        Inl err \<Rightarrow> False
      | Inr src \<Rightarrow>
          packedAs W (zInfo f) src (zName f)
            (SHA1 (findInResources (zName f) filesToInclude))
            (Mode (findInResources (zName f) filesToInclude)) e)"

text \<open>The descriptor that the archive scan makes of an entry of the archive.\<close>

definition archiveScanned :: "World \<Rightarrow> zipFile \<Rightarrow> Resource \<Rightarrow> bool" where
  "archiveScanned W f r \<longleftrightarrow>
     Filename r = ToSlash W (zName f) \<and>
     (if fiIsDir (zInfo f) then Mode r = 493 \<and> SHA1 r = [] \<and> Size r = 0
      else Mode r = 484 \<and> Size r = fiSize (zInfo f) \<and>
           (case zOpen f of
              Inr (Inr bytes) \<Rightarrow> SHA1 r = sha1hex W bytes
            | _ \<Rightarrow> False))"

subsection \<open>An example environment\<close>

text \<open>
  A directory \<^verbatim>\<open>app\<close> with an empty directory \<^verbatim>\<open>logs\<close> and a file \<^verbatim>\<open>main\<close> of
  five bytes, and an archive \<^verbatim>\<open>app.zip\<close> of the same two entries. The digest is a
  stand-in that keeps the bytes. The temporary file, once written, reads back as the
  archive that packing \<^verbatim>\<open>app\<close> produces.
\<close>

definition exDigest :: "string \<Rightarrow> string" where
  "exDigest bytes = ''sha1:'' @ bytes"

definition exDirInfo :: "string \<Rightarrow> FileInfo" where
  "exDirInfo name = \<lparr>fiName = name, fiSize = 0, fiMode = 2147484141, fiIsDir = True\<rparr>"
  \<comment> \<open>\<^verbatim>\<open>os.ModeDir | 0755\<close>\<close>

definition exMainInfo :: FileInfo where
  "exMainInfo = \<lparr>fiName = ''main'', fiSize = 5, fiMode = 420, fiIsDir = False\<rparr>"
  \<comment> \<open>mode 0644\<close>

definition exMainFile :: OsFile where
  "exMainFile = \<lparr>fStat = Inr exMainInfo, fRead = Inr ''hello''\<rparr>"

definition exDirFile :: "string \<Rightarrow> OsFile" where
  "exDirFile name = \<lparr>fStat = Inr (exDirInfo name), fRead = Inl (OSError ''is a directory'')\<rparr>"

definition exTree :: fsnode where
  "exTree = FsNode (Inr (exDirInfo ''app'')) (Inr (exDirFile ''app''))
     (Inr [(''logs'', FsNode (Inr (exDirInfo ''logs'')) (Inr (exDirFile ''logs'')) (Inr [])),
           (''main'', FsNode (Inr exMainInfo) (Inr exMainFile)
                        (Inl (OSError ''not a directory'')))])"

definition exArchive :: "zipFile list" where
  "exArchive =
     [\<lparr>zName = ''logs/'',
       zInfo = \<lparr>fiName = ''logs'', fiSize = 0, fiMode = 2147484096, fiIsDir = True\<rparr>,
       zOpen = Inr (Inr [])\<rparr>,
      \<lparr>zName = ''main'', zInfo = exMainInfo, zOpen = Inr (Inr ''hello'')\<rparr>]"
  \<comment> \<open>the directory entry has mode \<^verbatim>\<open>os.ModeDir | 0700\<close>\<close>

definition exPacked :: "zipFile list" where
  "exPacked =
     [\<lparr>zName = ''logs/'',
       zInfo = \<lparr>fiName = ''logs'', fiSize = 0, fiMode = 2147484141, fiIsDir = True\<rparr>,
       zOpen = Inr (Inr [])\<rparr>,
      \<lparr>zName = ''main'', zInfo = exMainInfo, zOpen = Inr (Inr ''hello'')\<rparr>]"

definition exArchiveFile :: "int \<Rightarrow> OsFile" where
  "exArchiveFile n =
     \<lparr>fStat = Inr \<lparr>fiName = ''archive'', fiSize = n, fiMode = 420, fiIsDir = False\<rparr>,
      fRead = Inr ''PK''\<rparr>"

definition exWorld :: World where
  "exWorld =
     \<lparr>Separator = CHR ''/'',
      Join = (\<lambda>dir name. dir @ ''/'' @ name),
      sha1hex = exDigest,
      fixMode = (\<lambda>mode. mode),
      osOpen = (\<lambda>p. if p = ''app/main'' then Inr exMainFile
                     else if p = ''app/logs'' then Inr (exDirFile ''logs'')
                     else if p = ''app.zip'' then Inr (exArchiveFile 300)
                     else if p = ''/tmp/cf-cli-1'' then Inr (exArchiveFile 200)
                     else Inl (OSError ''no such file'')),
      fsAt = (\<lambda>p. if p = ''app'' then exTree
                   else FsNode (Inl (OSError ''no such file'')) (Inl (OSError ''no such file''))
                          (Inl (OSError ''no such file''))),
      ykkNewReader = (\<lambda>f n. if n = 300 then Inr exArchive
                            else if n = 200 then Inr exPacked
                            else Inl (OSError ''not an archive'')),
      TempFile = Inr ''/tmp/cf-cli-1'',
      FileInfoHeaderErr = (\<lambda>fi. None),
      CreateHeaderErr = (\<lambda>zipFile header. None),
      zipDecodeMode = (\<lambda>mode. mode)\<rparr>"

text \<open>
  The descriptors that scanning \<^verbatim>\<open>app\<close> yields, and the archive that packing
  \<^verbatim>\<open>app\<close> with them writes.
\<close>

definition exScan :: "Resource list" where
  "exScan = [\<lparr>Filename = ''logs'', Mode = 493, SHA1 = [], Size = 0\<rparr>,
             \<lparr>Filename = ''main'', Mode = 420, SHA1 = ''sha1:hello'', Size = 5\<rparr>]"

definition exNew :: zipWriter where
  "exNew = [\<lparr>eHeader = \<lparr>hName = ''logs/'', hMethod = Deflate, hMode = 493\<rparr>, eBody = []\<rparr>,
            \<lparr>eHeader = \<lparr>hName = ''main'', hMethod = Deflate, hMode = 420\<rparr>, eBody = ''hello''\<rparr>]"

text \<open>
  The same descriptors with a wrong digest declared, once for the directory and once
  for the file.
\<close>

definition exWrongDir :: "Resource list" where
  "exWrongDir = [\<lparr>Filename = ''logs'', Mode = 493, SHA1 = ''no such digest'', Size = 7\<rparr>,
                 \<lparr>Filename = ''main'', Mode = 420, SHA1 = ''sha1:hello'', Size = 5\<rparr>]"

definition exWrongFile :: "Resource list" where
  "exWrongFile = [\<lparr>Filename = ''logs'', Mode = 493, SHA1 = [], Size = 0\<rparr>,
                  \<lparr>Filename = ''main'', Mode = 420, SHA1 = ''sha1:HELLO'', Size = 5\<rparr>]"

text \<open>
  Two inclusion lists for packing from \<^verbatim>\<open>app.zip\<close>: one that names both entries of
  the archive, and one that names the file and a file the archive does not have, but
  not the directory; and the archive that is written for the second.
\<close>

definition exInclusion :: "Resource list" where
  "exInclusion = [\<lparr>Filename = ''logs/'', Mode = 493, SHA1 = [], Size = 0\<rparr>,
                  \<lparr>Filename = ''main'', Mode = 420, SHA1 = ''sha1:hello'', Size = 5\<rparr>]"

definition exPartial :: "Resource list" where
  "exPartial = [\<lparr>Filename = ''main'', Mode = 420, SHA1 = ''sha1:hello'', Size = 5\<rparr>,
                \<lparr>Filename = ''config.yml'', Mode = 420, SHA1 = ''sha1:port'', Size = 4\<rparr>]"

definition exRepacked :: zipWriter where
  "exRepacked =
     [\<lparr>eHeader = \<lparr>hName = ''logs/'', hMethod = Deflate, hMode = 0\<rparr>, eBody = []\<rparr>,
      \<lparr>eHeader = \<lparr>hName = ''main'', hMethod = Deflate, hMode = 420\<rparr>, eBody = ''hello''\<rparr>]"

text \<open>
  The entries under a node, each with its path from the node, in the order of the
  walk: every name of a directory that can be read, followed by what is under it.
\<close>

fun below :: "string list \<Rightarrow> fsnode \<Rightarrow> (string list \<times> fsnode) list"
and belowNames :: "string list \<Rightarrow> (string \<times> fsnode) list \<Rightarrow> (string list \<times> fsnode) list"
where
  "below path (FsNode l opn rd) =
     (case l of
        Inl err \<Rightarrow> []
      | Inr info \<Rightarrow>
          if fiIsDir info
          then (case rd of Inl err \<Rightarrow> [] | Inr names \<Rightarrow> belowNames path names)
          else [])"
| "belowNames path [] = []"
| "belowNames path ((name, child) # names) =
     (path @ [name], child) # below (path @ [name]) child @ belowNames path names"

text \<open>
  What every file system guarantees of the names in a directory: none is empty or
  \<^verbatim>\<open>.\<close>, none contains a separator or a slash, and no two are equal.
\<close>

definition goodName :: "World \<Rightarrow> string \<Rightarrow> bool" where
  "goodName W name \<longleftrightarrow>
     name \<noteq> [] \<and> name \<noteq> ''.'' \<and> Separator W \<notin> set name \<and> CHR ''/'' \<notin> set name"

fun wfNode :: "World \<Rightarrow> fsnode \<Rightarrow> bool"
and wfNames :: "World \<Rightarrow> (string \<times> fsnode) list \<Rightarrow> bool"
where
  "wfNode W (FsNode l opn rd) =
     (case rd of
        Inl err \<Rightarrow> True
      | Inr names \<Rightarrow> distinct (map fst names) \<and> wfNames W names)"
| "wfNames W [] = True"
| "wfNames W ((name, child) # names) =
     (goodName W name \<and> wfNode W child \<and> wfNames W names)"

text \<open>The descriptor that the directory scan makes of an entry.\<close>

definition dirScanned :: "World \<Rightarrow> string list \<times> fsnode \<Rightarrow> Resource \<Rightarrow> bool" where
  "dirScanned W pn r \<longleftrightarrow>
     Filename r = ToSlash W (joinSep (Separator W) (fst pn)) \<and>
     (case nLstat (snd pn) of
        Inl err \<Rightarrow> False
      | Inr info \<Rightarrow>
          if fiIsDir info then Mode r = 493 \<and> SHA1 r = [] \<and> Size r = 0
          else Mode r = fixMode W (fiMode info) \<and> Size r = fiSize info \<and>
               (case nOpen (snd pn) of
                  Inl err \<Rightarrow> False
                | Inr file \<Rightarrow>
                    (case fRead file of
                       Inl err \<Rightarrow> False
                     | Inr bytes \<Rightarrow> SHA1 r = sha1hex W bytes)))"

text \<open>
  The directory \<^verbatim>\<open>app\<close> with a second file, \<^verbatim>\<open>secret\<close>, that cannot be opened.
\<close>

definition exLocked :: World where
  "exLocked = exWorld
     \<lparr>fsAt := (\<lambda>p. FsNode (Inr (exDirInfo ''app'')) (Inr (exDirFile ''app''))
        (Inr [(''main'', FsNode (Inr exMainInfo) (Inr exMainFile)
                          (Inl (OSError ''not a directory''))),
              (''secret'', FsNode (Inr \<lparr>fiName = ''secret'', fiSize = 9, fiMode = 0,
                                         fiIsDir = False\<rparr>)
                            (Inl (OSError ''permission denied''))
                            (Inl (OSError ''not a directory'')))]))\<rparr>"





section \<open>Properties\<close>

lemmas ex_defs = exWorld_def exDigest_def exDirInfo_def exMainInfo_def exMainFile_def
  exDirFile_def exTree_def exArchive_def exPacked_def exArchiveFile_def

subsection \<open>The resource matcher\<close>

lemma findInResources_hit:
  "\<exists>r \<in> set rs. Filename r = p \<Longrightarrow>
     findInResources p rs \<in> set rs \<and> Filename (findInResources p rs) = p"
  by (induction rs) auto

lemma findInResources_miss:
  "\<forall>r \<in> set rs. Filename r \<noteq> p \<Longrightarrow> findInResources p rs = Resource0"
  by (induction rs) auto

lemma findInResources_first:
  "findInResources p (pre @ r # post) = r"
  if "\<forall>q \<in> set pre. Filename q \<noteq> p" and "Filename r = p"
  using that by (induction pre) auto

text \<open>
  Claim C5. For every queried name and every descriptor list, the matcher returns a
  descriptor of the list whose path is exactly the name when the list has one (the
  first such descriptor), and otherwise the zero-value descriptor: empty path, empty
  hash, zero mode and zero size. It has no error result. The comparison is equality of
  the strings, so a name that differs only in the case of a letter does not match.
\<close>

theorem findInResources_exact_or_zero:
  "((\<exists>r \<in> set rs. Filename r = p) \<longrightarrow>
      findInResources p rs \<in> set rs \<and> Filename (findInResources p rs) = p \<and>
      (\<forall>pre r post. rs = pre @ r # post \<and> (\<forall>q \<in> set pre. Filename q \<noteq> p) \<and> Filename r = p
          \<longrightarrow> findInResources p rs = r)) \<and>
   ((\<forall>r \<in> set rs. Filename r \<noteq> p) \<longrightarrow>
      findInResources p rs = Resource0 \<and>
      SHA1 (findInResources p rs) = [] \<and> Mode (findInResources p rs) = 0 \<and>
      Size (findInResources p rs) = 0)"
  using findInResources_hit [of rs p] findInResources_miss [of rs p]
  by (auto simp: findInResources_first Resource0_def)

theorem findInResources_exact_or_zero_witness:
  "findInResources ''main'' [\<lparr>Filename = ''Main'', Mode = 1, SHA1 = ''aa'', Size = 2\<rparr>,
       \<lparr>Filename = ''main'', Mode = 420, SHA1 = ''bb'', Size = 600\<rparr>]
     = \<lparr>Filename = ''main'', Mode = 420, SHA1 = ''bb'', Size = 600\<rparr> \<and>
   findInResources ''logs/'' [\<lparr>Filename = ''Main'', Mode = 1, SHA1 = ''aa'', Size = 2\<rparr>]
     = Resource0"
proof -
  let ?a = "\<lparr>Filename = ''Main'', Mode = 1, SHA1 = ''aa'', Size = 2\<rparr>"
  let ?b = "\<lparr>Filename = ''main'', Mode = 420, SHA1 = ''bb'', Size = 600\<rparr>"
  have hit: "\<exists>r \<in> set [?a, ?b]. Filename r = ''main''" by simp
  have split: "[?a, ?b] = [?a] @ ?b # [] \<and> (\<forall>q \<in> set [?a]. Filename q \<noteq> ''main'') \<and>
     Filename ?b = ''main''" by simp
  have miss: "\<forall>r \<in> set [?a]. Filename r \<noteq> ''logs/''" by simp
  from findInResources_exact_or_zero [of "[?a, ?b]" "''main''"] hit split
  have 1: "findInResources ''main'' [?a, ?b] = ?b" by blast
  from findInResources_exact_or_zero [of "[?a]" "''logs/''"] miss
  have 2: "findInResources ''logs/'' [?a] = Resource0" by blast
  from 1 2 show ?thesis by simp
qed

subsection \<open>One entry\<close>

lemma writeBody_snoc [simp]:
  "writeBody (zw @ [e]) bytes = zw @ [e\<lparr>eBody := eBody e @ bytes\<rparr>]"
  by (simp add: writeBody_def)

lemma addFile_Inr:
  assumes "addFileToZipFromFileSystem W srcPath src fi dest sha1Sum mode zw = Inr zw'"
  shows "\<exists>e. zw' = zw @ [e] \<and> packedAs W fi src dest sha1Sum mode e"
  using assms
  by (auto simp: addFileToZipFromFileSystem_def FileInfoHeader_def CreateHeader_def SetMode_def
        packedAs_def Let_def split: sum.splits option.splits if_splits)

lemma addFile_FileChanged:
  assumes "addFileToZipFromFileSystem W srcPath src fi dest sha1Sum mode zw = Inl (FileChangedError p)"
  shows "p = srcPath \<and> \<not> fiIsDir fi \<and> (\<exists>bytes. src = Inr bytes \<and> sha1hex W bytes \<noteq> sha1Sum)"
  using assms
  by (auto simp: addFileToZipFromFileSystem_def FileInfoHeader_def CreateHeader_def SetMode_def
        Let_def split: sum.splits option.splits if_splits)


lemma addFile_dir:
  assumes "fiIsDir fi"
  shows "addFileToZipFromFileSystem W srcPath src fi dest sha1Sum mode zw =
         addFileToZipFromFileSystem W srcPath' src' fi dest sha1Sum' mode zw"
  using assms
  by (auto simp: addFileToZipFromFileSystem_def Let_def split: sum.splits)

lemma zipDirectoryLoop_Inr:
  "zipDirectoryLoop W d rs zw = Inr zw' \<Longrightarrow>
     \<exists>es. zw' = zw @ es \<and> list_all2 (dirPacked W d) rs es"
proof (induction rs arbitrary: zw)
  case Nil
  then show ?case by simp
next
  case (Cons r rs)
  from Cons.prems obtain f fi zw1 where
    o: "osOpen W (Join W d (Filename r)) = Inr f" "fStat f = Inr fi"
    and a: "addFileToZipFromFileSystem W (Join W d (Filename r)) (fRead f) fi
              (Filename r) (SHA1 r) (Mode r) zw = Inr zw1"
    and l: "zipDirectoryLoop W d rs zw1 = Inr zw'"
    by (auto simp: Let_def split: sum.splits)
  from addFile_Inr [OF a] obtain e where
    e: "zw1 = zw @ [e]" "packedAs W fi (fRead f) (Filename r) (SHA1 r) (Mode r) e" by blast
  from Cons.IH [OF l] obtain es where
    es: "zw' = zw1 @ es" "list_all2 (dirPacked W d) rs es" by blast
  have "dirPacked W d r e"
    using o e(2) by (simp add: dirPacked_def openStat_def)
  with e(1) es have "zw' = zw @ (e # es) \<and> list_all2 (dirPacked W d) (r # rs) (e # es)"
    by simp
  then show ?case by blast
qed

lemma zipArchiveLoop_Inr:
  "zipArchiveLoop W rs files zw = Inr zw' \<Longrightarrow>
     \<exists>es. zw' = zw @ es \<and> list_all2 (archPacked W rs) files es"
proof (induction files arbitrary: zw)
  case Nil
  then show ?case by simp
next
  case (Cons f files)
  let ?r = "findInResources (zName f) rs"
  from Cons.prems obtain src zw1 where
    o: "zOpen f = Inr src"
    and a: "addFileToZipFromFileSystem W (zName f) src (zInfo f)
              (zName f) (SHA1 ?r) (Mode ?r) zw = Inr zw1"
    and l: "zipArchiveLoop W rs files zw1 = Inr zw'"
    by (auto simp: Let_def split: sum.splits)
  from addFile_Inr [OF a] obtain e where
    e: "zw1 = zw @ [e]" "packedAs W (zInfo f) src (zName f) (SHA1 ?r) (Mode ?r) e" by blast
  from Cons.IH [OF l] obtain es where
    es: "zw' = zw1 @ es" "list_all2 (archPacked W rs) files es" by blast
  have "archPacked W rs f e"
    using o e(2) by (simp add: archPacked_def)
  with e(1) es have "zw' = zw @ (e # es) \<and> list_all2 (archPacked W rs) (f # files) (e # es)"
    by simp
  then show ?case by blast
qed

lemma ZipDirectoryResources_Inr:
  assumes "ZipDirectoryResources W d rs = Inr (loc, zw)"
  shows "TempFile W = Inr loc \<and> list_all2 (dirPacked W d) rs zw"
proof -
  from assms have t: "TempFile W = Inr loc" and l: "zipDirectoryLoop W d rs [] = Inr zw"
    by (auto simp: ZipDirectoryResources_def split: sum.splits)
  from zipDirectoryLoop_Inr [OF l] t show ?thesis by simp
qed

lemma ZipArchiveResources_Inr:
  assumes "ZipArchiveResources W p rs = Inr (loc, zw)"
  shows "TempFile W = Inr loc \<and>
     (\<exists>source files. osOpen W p = Inr source \<and> newArchiveReader W source = Inr files \<and>
        list_all2 (archPacked W rs) files zw)"
proof -
  from assms obtain source files where
    t: "TempFile W = Inr loc" "osOpen W p = Inr source" "newArchiveReader W source = Inr files"
    and l: "zipArchiveLoop W rs files [] = Inr zw"
    by (auto simp: ZipArchiveResources_def split: sum.splits)
  from zipArchiveLoop_Inr [OF l] t show ?thesis by simp
qed

subsection \<open>The two packing loops\<close>





lemma zipDirectoryLoop_FileChanged:
  "zipDirectoryLoop W d rs zw = Inl (FileChangedError x) \<Longrightarrow>
     \<exists>r \<in> set rs. \<exists>fi bytes. x = Join W d (Filename r) \<and>
        openStat W x = Some (fi, Inr bytes) \<and> \<not> fiIsDir fi \<and> sha1hex W bytes \<noteq> SHA1 r"
proof (induction rs arbitrary: zw)
  case Nil
  then show ?case by simp
next
  case (Cons r rs)
  let ?p = "Join W d (Filename r)"
  from Cons.prems obtain f fi where o: "osOpen W ?p = Inr f" "fStat f = Inr fi"
    by (auto simp: Let_def split: sum.splits)
  show ?case
  proof (cases "addFileToZipFromFileSystem W ?p (fRead f) fi (Filename r) (SHA1 r) (Mode r) zw")
    case (Inl err)
    with Cons.prems o have "err = FileChangedError x" by (simp add: Let_def)
    with Inl addFile_FileChanged
    have "x = ?p \<and> \<not> fiIsDir fi \<and> (\<exists>bytes. fRead f = Inr bytes \<and> sha1hex W bytes \<noteq> SHA1 r)"
      by blast
    with o show ?thesis by (auto simp: openStat_def)
  next
    case (Inr zw1)
    with Cons.prems o have "zipDirectoryLoop W d rs zw1 = Inl (FileChangedError x)"
      by (simp add: Let_def)
    from Cons.IH [OF this] show ?thesis by auto
  qed
qed

lemma zipArchiveLoop_FileChanged:
  "zipArchiveLoop W rs files zw = Inl (FileChangedError x) \<Longrightarrow>
     \<exists>f \<in> set files. x = zName f \<and> \<not> fiIsDir (zInfo f) \<and>
        (\<exists>bytes. zOpen f = Inr (Inr bytes) \<and>
           sha1hex W bytes \<noteq> SHA1 (findInResources (zName f) rs))"
proof (induction files arbitrary: zw)
  case Nil
  then show ?case by simp
next
  case (Cons f files)
  let ?r = "findInResources (zName f) rs"
  from Cons.prems obtain src where o: "zOpen f = Inr src"
    by (auto simp: Let_def split: sum.splits)
  show ?case
  proof (cases "addFileToZipFromFileSystem W (zName f) src (zInfo f) (zName f) (SHA1 ?r) (Mode ?r) zw")
    case (Inl err)
    with Cons.prems o have "err = FileChangedError x" by (simp add: Let_def)
    with Inl addFile_FileChanged
    have "x = zName f \<and> \<not> fiIsDir (zInfo f) \<and>
        (\<exists>bytes. src = Inr bytes \<and> sha1hex W bytes \<noteq> SHA1 ?r)"
      by blast
    with o show ?thesis by auto
  next
    case (Inr zw1)
    with Cons.prems o have "zipArchiveLoop W rs files zw1 = Inl (FileChangedError x)"
      by (simp add: Let_def)
    from Cons.IH [OF this] show ?thesis by auto
  qed
qed

lemma ZipDirectoryResources_FileChanged:
  assumes "ZipDirectoryResources W d rs = Inl (FileChangedError x)"
  shows "\<exists>r \<in> set rs. \<exists>fi bytes. x = Join W d (Filename r) \<and>
        openStat W x = Some (fi, Inr bytes) \<and> \<not> fiIsDir fi \<and> sha1hex W bytes \<noteq> SHA1 r"
proof -
  from assms have "zipDirectoryLoop W d rs [] = Inl (FileChangedError x)"
    by (auto simp: ZipDirectoryResources_def split: sum.splits)
  then show ?thesis by (rule zipDirectoryLoop_FileChanged)
qed

lemma ZipArchiveResources_FileChanged:
  assumes "ZipArchiveResources W p rs = Inl (FileChangedError x)"
  shows "\<exists>source files. osOpen W p = Inr source \<and> newArchiveReader W source = Inr files \<and>
     (\<exists>f \<in> set files. x = zName f \<and> \<not> fiIsDir (zInfo f) \<and>
        (\<exists>bytes. zOpen f = Inr (Inr bytes) \<and>
           sha1hex W bytes \<noteq> SHA1 (findInResources (zName f) rs)))"
proof -
  from assms obtain source files where
    o: "osOpen W p = Inr source" "newArchiveReader W source = Inr files"
    and l: "zipArchiveLoop W rs files [] = Inl (FileChangedError x)"
    by (auto simp: ZipArchiveResources_def split: sum.splits)
  from zipArchiveLoop_FileChanged [OF l] o show ?thesis by blast
qed



subsection \<open>The archive scan\<close>

lemma gatherArchiveLoop_Inr:
  "gatherArchiveLoop W files acc = Inr rs \<Longrightarrow>
     \<exists>new. rs = acc @ new \<and> list_all2 (archiveScanned W) files new"
proof (induction files arbitrary: acc)
  case Nil
  then show ?case by simp
next
  case (Cons f files)
  show ?case
  proof (cases "fiIsDir (zInfo f)")
    case True
    let ?r = "Resource0\<lparr>Filename := ToSlash W (zName f), Mode := DefaultFolderPermissions\<rparr>"
    from True Cons.prems have "gatherArchiveLoop W files (acc @ [?r]) = Inr rs"
      by (simp add: Let_def)
    from Cons.IH [OF this] obtain new where
      new: "rs = (acc @ [?r]) @ new" "list_all2 (archiveScanned W) files new" by blast
    have "archiveScanned W f ?r"
      using True by (simp add: archiveScanned_def Resource0_def DefaultFolderPermissions_def)
    with new have "rs = acc @ (?r # new) \<and> list_all2 (archiveScanned W) (f # files) (?r # new)"
      by simp
    then show ?thesis by blast
  next
    case False
    with Cons.prems obtain bytes where o: "zOpen f = Inr (Inr bytes)"
      by (auto simp: Let_def split: sum.splits)
    let ?r = "Resource0\<lparr>Filename := ToSlash W (zName f), Mode := DefaultArchiveFilePermissions,
                SHA1 := sha1hex W bytes, Size := fiSize (zInfo f)\<rparr>"
    from False o Cons.prems have "gatherArchiveLoop W files (acc @ [?r]) = Inr rs"
      by (simp add: Let_def)
    from Cons.IH [OF this] obtain new where
      new: "rs = (acc @ [?r]) @ new" "list_all2 (archiveScanned W) files new" by blast
    have "archiveScanned W f ?r"
      using False o
      by (simp add: archiveScanned_def Resource0_def DefaultArchiveFilePermissions_def)
    with new have "rs = acc @ (?r # new) \<and> list_all2 (archiveScanned W) (f # files) (?r # new)"
      by simp
    then show ?thesis by blast
  qed
qed

lemma gatherArchiveLoop_total:
  "\<forall>f \<in> set files. \<not> fiIsDir (zInfo f) \<longrightarrow> (\<exists>bytes. zOpen f = Inr (Inr bytes)) \<Longrightarrow>
     \<exists>rs. gatherArchiveLoop W files acc = Inr rs"
  by (induction files arbitrary: acc) (auto simp: Let_def)

text \<open>
  Claim C7. For an archive that can be read (it opens, its directory listing is read,
  and every file entry opens and streams to its end), the archive scan returns one
  descriptor per entry, in the order of the listing, under the entry's name with
  slashes: for a directory entry with mode 0755, no hash and no size; for a file entry
  with mode 0744, the digest of the bytes streamed from the entry and the size the
  entry declares.
\<close>

theorem GatherArchiveResources_descriptors:
  assumes "osOpen W archivePath = Inr archive"
    and "newArchiveReader W archive = Inr reader"
    and "\<forall>f \<in> set reader. \<not> fiIsDir (zInfo f) \<longrightarrow> (\<exists>bytes. zOpen f = Inr (Inr bytes))"
  shows "\<exists>rs. GatherArchiveResources W archivePath = Inr rs \<and>
     list_all2 (\<lambda>f r.
        Filename r = ToSlash W (zName f) \<and>
        (if fiIsDir (zInfo f)
         then Mode r = DefaultFolderPermissions \<and> Mode r = 493 \<and> SHA1 r = [] \<and> Size r = 0
         else Mode r = DefaultArchiveFilePermissions \<and> Mode r = 484 \<and>
              (\<exists>bytes. zOpen f = Inr (Inr bytes) \<and> SHA1 r = sha1hex W bytes) \<and>
              Size r = fiSize (zInfo f))) reader rs"
proof -
  from assms(3) obtain rs where rs: "gatherArchiveLoop W reader [] = Inr rs"
    using gatherArchiveLoop_total by blast
  then have all: "list_all2 (archiveScanned W) reader rs"
    using gatherArchiveLoop_Inr by fastforce
  have res: "GatherArchiveResources W archivePath = Inr rs"
    using assms(1,2) rs by (simp add: GatherArchiveResources_def)
  have "list_all2 (\<lambda>f r.
        Filename r = ToSlash W (zName f) \<and>
        (if fiIsDir (zInfo f)
         then Mode r = DefaultFolderPermissions \<and> Mode r = 493 \<and> SHA1 r = [] \<and> Size r = 0
         else Mode r = DefaultArchiveFilePermissions \<and> Mode r = 484 \<and>
              (\<exists>bytes. zOpen f = Inr (Inr bytes) \<and> SHA1 r = sha1hex W bytes) \<and>
              Size r = fiSize (zInfo f))) reader rs"
    by (rule list_all2_mono [OF all])
       (auto simp: archiveScanned_def DefaultFolderPermissions_def
          DefaultArchiveFilePermissions_def split: sum.splits if_splits)
  with res show ?thesis by blast
qed

theorem GatherArchiveResources_descriptors_witness:
  "osOpen exWorld ''app.zip'' = Inr (exArchiveFile 300) \<and>
   newArchiveReader exWorld (exArchiveFile 300) = Inr exArchive \<and>
   fiIsDir (zInfo (exArchive ! 0)) \<and> zOpen (exArchive ! 1) = Inr (Inr ''hello'') \<and>
   (\<exists>rs. GatherArchiveResources exWorld ''app.zip'' = Inr rs \<and> length rs = 2 \<and>
      Filename (rs ! 0) = ''logs/'' \<and> Mode (rs ! 0) = 493 \<and> SHA1 (rs ! 0) = [] \<and>
      Filename (rs ! 1) = ''main'' \<and> Mode (rs ! 1) = 484 \<and>
      SHA1 (rs ! 1) = ''sha1:hello'' \<and> Size (rs ! 1) = 5)"
proof -
  have o: "osOpen exWorld ''app.zip'' = Inr (exArchiveFile 300)"
    by (simp add: exWorld_def)
  have n: "newArchiveReader exWorld (exArchiveFile 300) = Inr exArchive"
    by (simp add: newArchiveReader_def exWorld_def exArchiveFile_def)
  have r: "\<forall>f \<in> set exArchive. \<not> fiIsDir (zInfo f) \<longrightarrow> (\<exists>bytes. zOpen f = Inr (Inr bytes))"
    by (simp add: exArchive_def)
  from GatherArchiveResources_descriptors [OF o n r]
  have "\<exists>rs. GatherArchiveResources exWorld ''app.zip'' = Inr rs \<and> length rs = 2 \<and>
      Filename (rs ! 0) = ''logs/'' \<and> Mode (rs ! 0) = 493 \<and> SHA1 (rs ! 0) = [] \<and>
      Filename (rs ! 1) = ''main'' \<and> Mode (rs ! 1) = 484 \<and>
      SHA1 (rs ! 1) = ''sha1:hello'' \<and> Size (rs ! 1) = 5"
    by (auto simp: list_all2_Cons1 exArchive_def exMainInfo_def exDigest_def ToSlash_def
          exWorld_def)
  moreover have "fiIsDir (zInfo (exArchive ! 0)) \<and> zOpen (exArchive ! 1) = Inr (Inr ''hello'')"
    by (simp add: exArchive_def)
  ultimately show ?thesis using o n by blast
qed

subsection \<open>The example, evaluated\<close>

lemmas eval_defs = ZipDirectoryResources_def ZipArchiveResources_def
  GatherArchiveResources_def GatherDirectoryResources_def Walk_def gatherWalkFn_def Rel_def
  addFileToZipFromFileSystem_def FileInfoHeader_def CreateHeader_def SetMode_def HasSuffix_def
  newArchiveReader_def ToSlash_def Resource0_def DefaultFolderPermissions_def
  DefaultArchiveFilePermissions_def openStat_def writeBody_def Let_def

lemma exPack: "ZipDirectoryResources exWorld ''app'' exScan = Inr (''/tmp/cf-cli-1'', exNew)"
  by (simp add: eval_defs ex_defs exScan_def exNew_def)


subsection \<open>Packing\<close>



lemma exPackWrongDir:
  "ZipDirectoryResources exWorld ''app'' exWrongDir = Inr (''/tmp/cf-cli-1'', exNew)"
  by (simp add: eval_defs ex_defs exWrongDir_def exNew_def)

lemma exPackWrongFile:
  "ZipDirectoryResources exWorld ''app'' exWrongFile = Inl (FileChangedError ''app/main'')"
  by (simp add: eval_defs ex_defs exWrongFile_def)

lemma exRepackWrongFile:
  "ZipArchiveResources exWorld ''app.zip'' exWrongFile = Inl (FileChangedError ''main'')"
  by (simp add: eval_defs ex_defs exWrongFile_def)

text \<open>
  Claim C10. For a directory, \<^verbatim>\<open>addFileToZipFromFileSystem\<close> neither reads the source
  nor looks at the declared digest: its result is the same for every source content
  and every declared digest, it is never a \<^verbatim>\<open>FileChangedError\<close>, and the entry it
  writes has no bytes. So when either packing entry point fails with a
  \<^verbatim>\<open>FileChangedError\<close>, the error names an entry that is not a directory, whose bytes
  were read and whose digest differs from the declared one.
\<close>

theorem directories_never_verified:
  "(fiIsDir fi \<longrightarrow>
      addFileToZipFromFileSystem W srcPath src fi dest sha1Sum mode zw
        = addFileToZipFromFileSystem W srcPath src' fi dest sha1Sum' mode zw \<and>
      addFileToZipFromFileSystem W srcPath src fi dest sha1Sum mode zw \<noteq> Inl (FileChangedError x) \<and>
      (\<forall>zw'. addFileToZipFromFileSystem W srcPath src fi dest sha1Sum mode zw = Inr zw' \<longrightarrow>
         (\<exists>e. zw' = zw @ [e] \<and> eBody e = []))) \<and>
   (ZipDirectoryResources W sourceDir rs = Inl (FileChangedError x) \<longrightarrow>
      (\<exists>r \<in> set rs. \<exists>fi' bytes. x = Join W sourceDir (Filename r) \<and>
          openStat W x = Some (fi', Inr bytes) \<and> \<not> fiIsDir fi' \<and> sha1hex W bytes \<noteq> SHA1 r)) \<and>
   (ZipArchiveResources W p rs = Inl (FileChangedError x) \<longrightarrow>
      (\<exists>source files. osOpen W p = Inr source \<and> newArchiveReader W source = Inr files \<and>
         (\<exists>f \<in> set files. x = zName f \<and> \<not> fiIsDir (zInfo f) \<and>
            (\<exists>bytes. zOpen f = Inr (Inr bytes) \<and>
               sha1hex W bytes \<noteq> SHA1 (findInResources (zName f) rs)))))"
proof (intro conjI impI allI)
  assume d: "fiIsDir fi"
  show "addFileToZipFromFileSystem W srcPath src fi dest sha1Sum mode zw
        = addFileToZipFromFileSystem W srcPath src' fi dest sha1Sum' mode zw"
    using d by (rule addFile_dir)
  show "addFileToZipFromFileSystem W srcPath src fi dest sha1Sum mode zw \<noteq> Inl (FileChangedError x)"
    using d addFile_FileChanged by blast
  fix zw' assume "addFileToZipFromFileSystem W srcPath src fi dest sha1Sum mode zw = Inr zw'"
  from addFile_Inr [OF this] d show "\<exists>e. zw' = zw @ [e] \<and> eBody e = []"
    by (auto simp: packedAs_def)
next
  assume "ZipDirectoryResources W sourceDir rs = Inl (FileChangedError x)"
  then show "\<exists>r \<in> set rs. \<exists>fi' bytes. x = Join W sourceDir (Filename r) \<and>
          openStat W x = Some (fi', Inr bytes) \<and> \<not> fiIsDir fi' \<and> sha1hex W bytes \<noteq> SHA1 r"
    by (rule ZipDirectoryResources_FileChanged)
next
  assume "ZipArchiveResources W p rs = Inl (FileChangedError x)"
  then show "\<exists>source files. osOpen W p = Inr source \<and> newArchiveReader W source = Inr files \<and>
         (\<exists>f \<in> set files. x = zName f \<and> \<not> fiIsDir (zInfo f) \<and>
            (\<exists>bytes. zOpen f = Inr (Inr bytes) \<and>
               sha1hex W bytes \<noteq> SHA1 (findInResources (zName f) rs)))"
    by (rule ZipArchiveResources_FileChanged)
qed

theorem directories_never_verified_witness:
  "fiIsDir (exDirInfo ''logs'') \<and>
   addFileToZipFromFileSystem exWorld ''app/logs'' (Inl (OSError ''is a directory''))
       (exDirInfo ''logs'') ''logs'' ''no such digest'' 493 []
     = addFileToZipFromFileSystem exWorld ''app/logs'' (Inr ''other bytes'')
         (exDirInfo ''logs'') ''logs'' [] 493 [] \<and>
   addFileToZipFromFileSystem exWorld ''app/logs'' (Inl (OSError ''is a directory''))
       (exDirInfo ''logs'') ''logs'' ''no such digest'' 493 [] \<noteq> Inl (FileChangedError ''app/logs'') \<and>
   ZipDirectoryResources exWorld ''app'' exWrongFile = Inl (FileChangedError ''app/main'') \<and>
   (\<exists>r \<in> set exWrongFile. \<exists>fi' bytes. ''app/main'' = Join exWorld ''app'' (Filename r) \<and>
       openStat exWorld ''app/main'' = Some (fi', Inr bytes) \<and> \<not> fiIsDir fi' \<and>
       sha1hex exWorld bytes \<noteq> SHA1 r) \<and>
   ZipArchiveResources exWorld ''app.zip'' exWrongFile = Inl (FileChangedError ''main'') \<and>
   (\<exists>f \<in> set exArchive. ''main'' = zName f \<and> \<not> fiIsDir (zInfo f)) \<and>
   SHA1 (exWrongDir ! 0) = ''no such digest'' \<and>
   ZipDirectoryResources exWorld ''app'' exWrongDir = Inr (''/tmp/cf-cli-1'', exNew)"
proof -
  have d: "fiIsDir (exDirInfo ''logs'')" by (simp add: exDirInfo_def)
  have w: "SHA1 (exWrongDir ! 0) = ''no such digest''" by (simp add: exWrongDir_def)
  have o: "osOpen exWorld ''app.zip'' = Inr (exArchiveFile 300)"
    by (simp add: exWorld_def)
  have n: "newArchiveReader exWorld (exArchiveFile 300) = Inr exArchive"
    by (simp add: newArchiveReader_def exWorld_def exArchiveFile_def)
  note t = directories_never_verified [of "exDirInfo ''logs''" exWorld "''app/logs''"
      "Inl (OSError ''is a directory'')" "''logs''" "''no such digest''" 493 "[]"
      "Inr ''other bytes''" "[]" _ _ exWrongFile]
  from t [of "''app/logs''" "''app''" "''app.zip''"] d
  have 1: "addFileToZipFromFileSystem exWorld ''app/logs'' (Inl (OSError ''is a directory''))
       (exDirInfo ''logs'') ''logs'' ''no such digest'' 493 []
     = addFileToZipFromFileSystem exWorld ''app/logs'' (Inr ''other bytes'')
         (exDirInfo ''logs'') ''logs'' [] 493 [] \<and>
   addFileToZipFromFileSystem exWorld ''app/logs'' (Inl (OSError ''is a directory''))
       (exDirInfo ''logs'') ''logs'' ''no such digest'' 493 [] \<noteq> Inl (FileChangedError ''app/logs'')"
    by blast
  from t [of "''app/main''" "''app''" "''app.zip''"] exPackWrongFile
  have 2: "\<exists>r \<in> set exWrongFile. \<exists>fi' bytes. ''app/main'' = Join exWorld ''app'' (Filename r) \<and>
       openStat exWorld ''app/main'' = Some (fi', Inr bytes) \<and> \<not> fiIsDir fi' \<and>
       sha1hex exWorld bytes \<noteq> SHA1 r"
    by blast
  from t [of "''main''" "''app''" "''app.zip''"] exRepackWrongFile o n
  have 3: "\<exists>f \<in> set exArchive. ''main'' = zName f \<and> \<not> fiIsDir (zInfo f)"
    by fastforce
  from d 1 2 3 w exPackWrongFile exRepackWrongFile exPackWrongDir show ?thesis by blast
qed




lemma exRepackInclusion:
  "ZipArchiveResources exWorld ''app.zip'' exInclusion = Inr (''/tmp/cf-cli-1'', exNew)"
  by (simp add: eval_defs ex_defs exInclusion_def exNew_def)

lemma exRepackPartial:
  "ZipArchiveResources exWorld ''app.zip'' exPartial = Inr (''/tmp/cf-cli-1'', exRepacked)"
  by (simp add: eval_defs ex_defs exPartial_def exRepacked_def)

text \<open>
  Claim C3, as the specification states it, fails for directory entries. In
  \<^verbatim>\<open>app.zip\<close> the directory entry \<^verbatim>\<open>logs/\<close> has the mode
  \<^verbatim>\<open>os.ModeDir | 0700\<close>; repackaged with an inclusion list that declares 0755 for
  it, it is written with 0755: \<^verbatim>\<open>header.SetMode(mode)\<close> is called with the
  descriptor's mode for every entry.
\<close>

theorem archive_directory_mode_counterexample:
  "osOpen exWorld ''app.zip'' = Inr (exArchiveFile 300) \<and>
   newArchiveReader exWorld (exArchiveFile 300) = Inr exArchive \<and>
   zName (exArchive ! 0) = ''logs/'' \<and> fiIsDir (zInfo (exArchive ! 0)) \<and>
   fiMode (zInfo (exArchive ! 0)) = 2147484096 \<and>
   ZipArchiveResources exWorld ''app.zip'' exInclusion = Inr (''/tmp/cf-cli-1'', exNew) \<and>
   hName (eHeader (exNew ! 0)) = ''logs/'' \<and> hMode (eHeader (exNew ! 0)) = 493 \<and>
   hMode (eHeader (exNew ! 0)) \<noteq> fiMode (zInfo (exArchive ! 0)) \<and>
   and (hMode (eHeader (exNew ! 0))) 511 \<noteq> and (fiMode (zInfo (exArchive ! 0))) 511 \<and>
   fiMode (zInfo (zipReadBack exWorld (exNew ! 0))) = 2147484141 \<and>
   fiMode (zInfo (zipReadBack exWorld (exNew ! 0))) \<noteq> fiMode (zInfo (exArchive ! 0))"
  using exRepackInclusion
  by (simp add: exWorld_def newArchiveReader_def exArchiveFile_def exArchive_def exNew_def
        zipReadBack_def ModeDir_def Let_def)

text \<open>
  Claim C3, amended. When an existing archive is repackaged, every entry, directory or
  file, is written with the mode of the descriptor that the matcher finds for the
  entry's name in the inclusion list (the zero mode when it finds none).
\<close>

theorem archive_modes_from_descriptors:
  assumes "ZipArchiveResources W p rs = Inr (loc, zw)"
  shows "\<exists>source files. osOpen W p = Inr source \<and> newArchiveReader W source = Inr files \<and>
     list_all2 (\<lambda>f e. hMode (eHeader e) = Mode (findInResources (zName f) rs)) files zw"
proof -
  from ZipArchiveResources_Inr [OF assms] obtain source files where
    o: "osOpen W p = Inr source" "newArchiveReader W source = Inr files"
    and all: "list_all2 (archPacked W rs) files zw"
    by blast
  have "list_all2 (\<lambda>f e. hMode (eHeader e) = Mode (findInResources (zName f) rs)) files zw"
    by (rule list_all2_mono [OF all])
       (auto simp: archPacked_def packedAs_def split: sum.splits)
  with o show ?thesis by blast
qed

theorem archive_modes_from_descriptors_witness:
  "ZipArchiveResources exWorld ''app.zip'' exInclusion = Inr (''/tmp/cf-cli-1'', exNew) \<and>
   hMode (eHeader (exNew ! 0)) = Mode (findInResources ''logs/'' exInclusion) \<and>
   hMode (eHeader (exNew ! 1)) = Mode (findInResources ''main'' exInclusion)"
proof -
  have o: "osOpen exWorld ''app.zip'' = Inr (exArchiveFile 300)"
    by (simp add: exWorld_def)
  have n: "newArchiveReader exWorld (exArchiveFile 300) = Inr exArchive"
    by (simp add: newArchiveReader_def exWorld_def exArchiveFile_def)
  from archive_modes_from_descriptors [OF exRepackInclusion] o n
  have "list_all2 (\<lambda>f e. hMode (eHeader e) = Mode (findInResources (zName f) exInclusion))
          exArchive exNew"
    by auto
  then have "hMode (eHeader (exNew ! 0)) = Mode (findInResources ''logs/'' exInclusion) \<and>
     hMode (eHeader (exNew ! 1)) = Mode (findInResources ''main'' exInclusion)"
    by (simp add: exArchive_def exNew_def)
  with exRepackInclusion show ?thesis by blast
qed

text \<open>
  Claim C1, as the specification states it, fails for packing from an archive: the
  new archive has the entries of the source archive, not those of the inclusion list.
  With an inclusion list that names \<^verbatim>\<open>main\<close> and \<^verbatim>\<open>config.yml\<close>, repackaging
  \<^verbatim>\<open>app.zip\<close> succeeds with the entries \<^verbatim>\<open>logs/\<close> (mode zero) and \<^verbatim>\<open>main\<close>.
\<close>

theorem packers_exactly_inclusion_list_counterexample:
  "ZipArchiveResources exWorld ''app.zip'' exPartial = Inr (''/tmp/cf-cli-1'', exRepacked) \<and>
   length exPartial = 2 \<and>
   Filename (exPartial ! 0) = ''main'' \<and> Filename (exPartial ! 1) = ''config.yml'' \<and>
   length exRepacked = 2 \<and>
   hName (eHeader (exRepacked ! 0)) = ''logs/'' \<and> hName (eHeader (exRepacked ! 1)) = ''main'' \<and>
   hName (eHeader (exRepacked ! 0)) \<noteq> Filename (exPartial ! 0) \<and>
   hName (eHeader (exRepacked ! 0)) \<noteq> Filename (exPartial ! 1) \<and>
   Filename (exPartial ! 1) \<noteq> hName (eHeader (exRepacked ! 0)) \<and>
   Filename (exPartial ! 1) \<noteq> hName (eHeader (exRepacked ! 1))"
  using exRepackPartial by (simp add: exPartial_def exRepacked_def)

text \<open>
  Claim C1, amended. Both entry points return the name of the temporary file they
  create. Packing from a directory writes one entry per descriptor of the inclusion
  list, in its order: under the descriptor's path (with a closing slash for a
  directory), with the declared mode and, for a file, with the bytes read from the
  path, whose digest is the declared one. Packing from an archive writes one entry per
  entry of the source archive, in its order: under the entry's name, with the mode of
  the descriptor that the matcher finds for that name (zero when there is none) and,
  for a file, with the bytes read from the entry, whose digest is that descriptor's.
\<close>

theorem packers_postconditions:
  "(ZipDirectoryResources W sourceDir rs = Inr (loc, zw) \<longrightarrow>
      TempFile W = Inr loc \<and>
      list_all2 (\<lambda>r e. \<exists>fi src.
         openStat W (Join W sourceDir (Filename r)) = Some (fi, src) \<and>
         hName (eHeader e) = (if fiIsDir fi \<and> \<not> HasSuffix (Filename r) ''/''
                              then Filename r @ ''/'' else Filename r) \<and>
         hMode (eHeader e) = Mode r \<and>
         (if fiIsDir fi then eBody e = []
          else src = Inr (eBody e) \<and> sha1hex W (eBody e) = SHA1 r)) rs zw) \<and>
   (ZipArchiveResources W p rs' = Inr (loc', zw') \<longrightarrow>
      TempFile W = Inr loc' \<and>
      (\<exists>source files. osOpen W p = Inr source \<and> newArchiveReader W source = Inr files \<and>
         list_all2 (\<lambda>f e.
            hName (eHeader e) = (if fiIsDir (zInfo f) \<and> \<not> HasSuffix (zName f) ''/''
                                 then zName f @ ''/'' else zName f) \<and>
            hMode (eHeader e) = Mode (findInResources (zName f) rs') \<and>
            (if fiIsDir (zInfo f) then eBody e = []
             else zOpen f = Inr (Inr (eBody e)) \<and>
                  sha1hex W (eBody e) = SHA1 (findInResources (zName f) rs'))) files zw'))"
proof (intro conjI impI)
  assume a: "ZipDirectoryResources W sourceDir rs = Inr (loc, zw)"
  from ZipDirectoryResources_Inr [OF a] show "TempFile W = Inr loc" by blast
  from ZipDirectoryResources_Inr [OF a] have all: "list_all2 (dirPacked W sourceDir) rs zw"
    by blast
  show "list_all2 (\<lambda>r e. \<exists>fi src.
         openStat W (Join W sourceDir (Filename r)) = Some (fi, src) \<and>
         hName (eHeader e) = (if fiIsDir fi \<and> \<not> HasSuffix (Filename r) ''/''
                              then Filename r @ ''/'' else Filename r) \<and>
         hMode (eHeader e) = Mode r \<and>
         (if fiIsDir fi then eBody e = []
          else src = Inr (eBody e) \<and> sha1hex W (eBody e) = SHA1 r)) rs zw"
  proof (rule list_all2_mono [OF all])
    fix r e assume "dirPacked W sourceDir r e"
    then obtain fi src where
      o: "openStat W (Join W sourceDir (Filename r)) = Some (fi, src)"
      and pk: "packedAs W fi src (Filename r) (SHA1 r) (Mode r) e"
      by (auto simp: dirPacked_def split: option.splits)
    from pk have "hName (eHeader e) = (if fiIsDir fi \<and> \<not> HasSuffix (Filename r) ''/''
                              then Filename r @ ''/'' else Filename r) \<and>
         hMode (eHeader e) = Mode r \<and>
         (if fiIsDir fi then eBody e = []
          else src = Inr (eBody e) \<and> sha1hex W (eBody e) = SHA1 r)"
      by (simp add: packedAs_def)
    with o show "\<exists>fi src.
         openStat W (Join W sourceDir (Filename r)) = Some (fi, src) \<and>
         hName (eHeader e) = (if fiIsDir fi \<and> \<not> HasSuffix (Filename r) ''/''
                              then Filename r @ ''/'' else Filename r) \<and>
         hMode (eHeader e) = Mode r \<and>
         (if fiIsDir fi then eBody e = []
          else src = Inr (eBody e) \<and> sha1hex W (eBody e) = SHA1 r)"
      by blast
  qed
next
  assume a: "ZipArchiveResources W p rs' = Inr (loc', zw')"
  from ZipArchiveResources_Inr [OF a] show "TempFile W = Inr loc'" by blast
  from ZipArchiveResources_Inr [OF a] obtain source files where
    o: "osOpen W p = Inr source" "newArchiveReader W source = Inr files"
    and all: "list_all2 (archPacked W rs') files zw'"
    by blast
  have "list_all2 (\<lambda>f e.
            hName (eHeader e) = (if fiIsDir (zInfo f) \<and> \<not> HasSuffix (zName f) ''/''
                                 then zName f @ ''/'' else zName f) \<and>
            hMode (eHeader e) = Mode (findInResources (zName f) rs') \<and>
            (if fiIsDir (zInfo f) then eBody e = []
             else zOpen f = Inr (Inr (eBody e)) \<and>
                  sha1hex W (eBody e) = SHA1 (findInResources (zName f) rs'))) files zw'"
    by (rule list_all2_mono [OF all])
       (auto simp: archPacked_def packedAs_def split: sum.splits)
  with o show "\<exists>source files. osOpen W p = Inr source \<and> newArchiveReader W source = Inr files \<and>
         list_all2 (\<lambda>f e.
            hName (eHeader e) = (if fiIsDir (zInfo f) \<and> \<not> HasSuffix (zName f) ''/''
                                 then zName f @ ''/'' else zName f) \<and>
            hMode (eHeader e) = Mode (findInResources (zName f) rs') \<and>
            (if fiIsDir (zInfo f) then eBody e = []
             else zOpen f = Inr (Inr (eBody e)) \<and>
                  sha1hex W (eBody e) = SHA1 (findInResources (zName f) rs'))) files zw'"
    by blast
qed

theorem packers_postconditions_witness:
  "ZipDirectoryResources exWorld ''app'' exScan = Inr (''/tmp/cf-cli-1'', exNew) \<and>
   ZipArchiveResources exWorld ''app.zip'' exInclusion = Inr (''/tmp/cf-cli-1'', exNew) \<and>
   TempFile exWorld = Inr ''/tmp/cf-cli-1'' \<and>
   length exNew = length exScan \<and> length exNew = length exArchive \<and>
   hMode (eHeader (exNew ! 1)) = Mode (exScan ! 1) \<and>
   hMode (eHeader (exNew ! 0)) = Mode (findInResources ''logs/'' exInclusion)"
proof -
  have o: "osOpen exWorld ''app.zip'' = Inr (exArchiveFile 300)"
    by (simp add: exWorld_def)
  have n: "newArchiveReader exWorld (exArchiveFile 300) = Inr exArchive"
    by (simp add: newArchiveReader_def exWorld_def exArchiveFile_def)
  note t = packers_postconditions [of exWorld "''app''" exScan "''/tmp/cf-cli-1''" exNew
      "''app.zip''" exInclusion "''/tmp/cf-cli-1''" exNew]
  from t exPack have 1: "TempFile exWorld = Inr ''/tmp/cf-cli-1''" by blast
  from t exPack have "list_all2 (\<lambda>r e. \<exists>fi src.
         openStat exWorld (Join exWorld ''app'' (Filename r)) = Some (fi, src) \<and>
         hName (eHeader e) = (if fiIsDir fi \<and> \<not> HasSuffix (Filename r) ''/''
                              then Filename r @ ''/'' else Filename r) \<and>
         hMode (eHeader e) = Mode r \<and>
         (if fiIsDir fi then eBody e = []
          else src = Inr (eBody e) \<and> sha1hex exWorld (eBody e) = SHA1 r)) exScan exNew"
    by blast
  then have 2: "length exNew = length exScan \<and> hMode (eHeader (exNew ! 1)) = Mode (exScan ! 1)"
    by (simp add: exScan_def exNew_def)
  from t exRepackInclusion o n have "list_all2 (\<lambda>f e.
            hName (eHeader e) = (if fiIsDir (zInfo f) \<and> \<not> HasSuffix (zName f) ''/''
                                 then zName f @ ''/'' else zName f) \<and>
            hMode (eHeader e) = Mode (findInResources (zName f) exInclusion) \<and>
            (if fiIsDir (zInfo f) then eBody e = []
             else zOpen f = Inr (Inr (eBody e)) \<and>
                  sha1hex exWorld (eBody e) = SHA1 (findInResources (zName f) exInclusion)))
          exArchive exNew"
    by auto
  then have 3: "length exNew = length exArchive \<and>
      hMode (eHeader (exNew ! 0)) = Mode (findInResources ''logs/'' exInclusion)"
    by (simp add: exArchive_def exNew_def)
  from exPack exRepackInclusion 1 2 3 show ?thesis by blast
qed

subsection \<open>The directory scan\<close>

lemma joinSep_not_dot:
  assumes "path \<noteq> []" "\<forall>n \<in> set path. n \<noteq> [] \<and> n \<noteq> ''.''"
  shows "joinSep sep path \<noteq> ''.''"
proof (cases path)
  case Nil
  with assms show ?thesis by simp
next
  case (Cons a rest)
  show ?thesis
  proof (cases rest)
    case Nil
    with Cons assms show ?thesis by simp
  next
    case (Cons b rest')
    with \<open>path = a # rest\<close> assms have "a \<noteq> []" by simp
    then have "length (joinSep sep path) \<ge> 2"
      using Cons \<open>path = a # rest\<close> by (cases a) auto
    then show ?thesis by auto
  qed
qed

text \<open>The function walked with, on a path that is not the root, without an error.\<close>

lemma gatherWalkFn_entry:
  assumes "joinSep (Separator W) path \<noteq> ''.''" "path \<noteq> []"
    and "gatherWalkFn W path node (Some info) None acc = (rs, None)"
    and "nLstat node = Inr info"
  shows "\<exists>r. rs = acc @ [r] \<and> dirScanned W (path, node) r"
  using assms
  by (auto simp: gatherWalkFn_def Rel_def dirScanned_def Resource0_def Let_def
        DefaultFolderPermissions_def split: sum.splits if_splits)

lemma gatherWalkFn_err:
  "gatherWalkFn W path node info (Some e) acc = (acc, Some (IOError e))"
  by (simp add: gatherWalkFn_def)


lemma walk_scanned:
  "nLstat node = Inr info \<Longrightarrow> wfNode W node \<Longrightarrow> path \<noteq> [] \<Longrightarrow>
   \<forall>n \<in> set path. n \<noteq> [] \<and> n \<noteq> ''.'' \<Longrightarrow>
   walk (gatherWalkFn W) path node info acc = (rs, None) \<Longrightarrow>
     \<exists>new. rs = acc @ new \<and> list_all2 (dirScanned W) ((path, node) # below path node) new"
  and walkNames_scanned:
  "wfNames W names \<Longrightarrow> \<forall>n \<in> set path. n \<noteq> [] \<and> n \<noteq> ''.'' \<Longrightarrow>
   walkNames (gatherWalkFn W) path names acc = (rs, None) \<Longrightarrow>
     \<exists>new. rs = acc @ new \<and> list_all2 (dirScanned W) (belowNames path names) new"
proof (induction "gatherWalkFn W" path node info acc and "gatherWalkFn W" path names acc
        arbitrary: rs and rs rule: walk_walkNames.induct)
  case (1 path l opn rd info s)
  let ?node = "FsNode l opn rd"
  from "1.prems"(1) have l: "l = Inr info" by simp
  have nd: "joinSep (Separator W) path \<noteq> ''.''"
    using "1.prems"(3,4) by (rule joinSep_not_dot)
  obtain s1 e1 where w: "gatherWalkFn W path ?node (Some info) None s = (s1, e1)"
    by (cases "gatherWalkFn W path ?node (Some info) None s") auto
  have e1: "e1 = None"
    using "1.prems"(5) w by (cases e1) auto
  from gatherWalkFn_entry [OF nd "1.prems"(3) w [unfolded e1] "1.prems"(1)]
  obtain r where r: "s1 = s @ [r]" "dirScanned W (path, ?node) r" by blast
  show ?case
  proof (cases "fiIsDir info")
    case False
    with "1.prems"(5) w e1 have "rs = s1" by simp
    with r False l show ?thesis by simp
  next
    case True
    show ?thesis
    proof (cases rd)
      case (Inl err)
      with "1.prems"(5) w e1 True show ?thesis
        by (simp add: gatherWalkFn_err)
    next
      case (Inr names)
      with "1.prems"(5) w e1 True
      have wn: "walkNames (gatherWalkFn W) path names s1 = (rs, None)" by simp
      from "1.prems"(2) Inr have wf: "wfNames W names" by simp
      from "1.hyps" [OF w [symmetric] e1 _ Inr wf "1.prems"(4) wn] True
      obtain new where new: "rs = s1 @ new" "list_all2 (dirScanned W) (belowNames path names) new"
        by auto
      with r True l Inr
      have "rs = s @ (r # new) \<and> list_all2 (dirScanned W) ((path, ?node) # below path ?node) (r # new)"
        by simp
      then show ?thesis by blast
    qed
  qed
next
  case (2 path s)
  then show ?case by simp
next
  case (3 path name child names s)
  from "3.prems"(1) have g: "goodName W name" and wc: "wfNode W child" and wn: "wfNames W names"
    by simp_all
  have gp: "\<forall>n \<in> set (path @ [name]). n \<noteq> [] \<and> n \<noteq> ''.''"
    using "3.prems"(2) g by (auto simp: goodName_def)
  show ?case
  proof (cases "nLstat child")
    case (Inl err)
    with "3.prems"(3) show ?thesis by (simp add: gatherWalkFn_err)
  next
    case (Inr fileInfo)
    obtain s1 e1 where w: "walk (gatherWalkFn W) (path @ [name]) child fileInfo s = (s1, e1)"
      by (cases "walk (gatherWalkFn W) (path @ [name]) child fileInfo s") auto
    have e1: "e1 = None"
      using "3.prems"(3) w Inr by (cases e1) auto
    from "3.hyps"(2) [OF Inr Inr wc _ gp w [unfolded e1]]
    obtain new1 where new1: "s1 = s @ new1"
      "list_all2 (dirScanned W) ((path @ [name], child) # below (path @ [name]) child) new1"
      by auto
    from "3.prems"(3) w e1 Inr
    have rest: "walkNames (gatherWalkFn W) path names s1 = (rs, None)" by simp
    from "3.hyps"(3) [OF Inr w [symmetric] e1 wn "3.prems"(2) rest]
    obtain new2 where new2: "rs = s1 @ new2"
      "list_all2 (dirScanned W) (belowNames path names) new2"
      by auto
    from new1(2) new2(2)
    have "list_all2 (dirScanned W)
        (((path @ [name], child) # below (path @ [name]) child) @ belowNames path names)
        (new1 @ new2)"
      by (rule list_all2_appendI)
    with new1(1) new2(1)
    have "rs = s @ (new1 @ new2) \<and>
        list_all2 (dirScanned W) (belowNames path ((name, child) # names)) (new1 @ new2)"
      by simp
    then show ?thesis by blast
  qed
qed


lemma Walk_scanned:
  assumes "wfNode W (fsAt W sourceDir)"
    and "GatherDirectoryResources W sourceDir = (rs, None)"
  shows "list_all2 (dirScanned W) (below [] (fsAt W sourceDir)) rs"
proof -
  obtain l opn rd where node: "fsAt W sourceDir = FsNode l opn rd"
    by (cases "fsAt W sourceDir") auto
  from assms(2) node obtain info where l: "l = Inr info"
    by (cases l) (auto simp: GatherDirectoryResources_def Walk_def Let_def gatherWalkFn_err)
  from assms(2) node l
  have w: "walk (gatherWalkFn W) [] (FsNode l opn rd) info [] = (rs, None)"
    by (simp add: GatherDirectoryResources_def Walk_def Let_def)
  have root: "gatherWalkFn W [] (FsNode l opn rd) (Some info) None [] = ([], None)"
    by (simp add: gatherWalkFn_def Rel_def)
  show ?thesis
  proof (cases "fiIsDir info")
    case False
    with w root node l show ?thesis by simp
  next
    case True
    show ?thesis
    proof (cases rd)
      case (Inl err)
      with w root True show ?thesis by (simp add: gatherWalkFn_err)
    next
      case (Inr names)
      with w root True have wn: "walkNames (gatherWalkFn W) [] names [] = (rs, None)"
        by simp
      from assms(1) node Inr have "wfNames W names" by simp
      from walkNames_scanned [OF this _ wn]
      have "list_all2 (dirScanned W) (belowNames [] names) rs" by simp
      with node l True Inr show ?thesis by simp
    qed
  qed
qed

lemma ToSlash_name:
  "Separator W \<notin> set n \<Longrightarrow> ToSlash W n = n"
  by (induction n) (auto simp: ToSlash_def)

lemma ToSlash_append:
  "ToSlash W (a @ b) = ToSlash W a @ ToSlash W b"
  by (simp add: ToSlash_def)

lemma ToSlash_joinSep:
  "\<forall>n \<in> set path. Separator W \<notin> set n \<Longrightarrow>
     ToSlash W (joinSep (Separator W) path) = joinSep (CHR ''/'') path"
proof (induction "Separator W" path rule: joinSep.induct)
  case 1
  then show ?case by (simp add: ToSlash_def)
next
  case (2 name)
  then show ?case by (simp add: ToSlash_name)
next
  case (3 name v va)
  then have "ToSlash W (joinSep (Separator W) (v # va)) = joinSep (CHR ''/'') (v # va)"
    by simp
  moreover have "ToSlash W name = name" using 3 by (simp add: ToSlash_name)
  ultimately show ?case
    by (simp add: ToSlash_append) (simp add: ToSlash_def)
qed


lemma split_at_sep:
  assumes "a @ c # r = b @ c # r'" "c \<notin> set a" "c \<notin> set b"
  shows "a = b \<and> r = r'"
proof -
  have tw: "takeWhile (\<lambda>x. x \<noteq> c) (xs @ c # ys) = xs" if "c \<notin> set xs" for xs ys
    using that by (induction xs) auto
  from assms(2) have "takeWhile (\<lambda>x. x \<noteq> c) (a @ c # r) = a" by (rule tw)
  moreover from assms(3) have "takeWhile (\<lambda>x. x \<noteq> c) (b @ c # r') = b" by (rule tw)
  ultimately have "a = b" using assms(1) by simp
  with assms(1) show ?thesis by simp
qed

lemma joinSep_inj:
  assumes "joinSep c xs = joinSep c ys" "xs \<noteq> []" "ys \<noteq> []"
    and "\<forall>n \<in> set xs. c \<notin> set n" "\<forall>n \<in> set ys. c \<notin> set n"
  shows "xs = ys"
  using assms
proof (induction c xs arbitrary: ys rule: joinSep.induct)
  case (1 sep)
  then show ?case by simp
next
  case (2 sep name)
  then obtain b ys' where ys: "ys = b # ys'" by (cases ys) auto
  show ?case
  proof (cases ys')
    case Nil
    with 2 ys show ?thesis by simp
  next
    case (Cons y ys'')
    with 2 ys have "name = b @ sep # joinSep sep (y # ys'')" by simp
    then have "sep \<in> set name" by simp
    with 2 show ?thesis by simp
  qed
next
  case (3 sep name v va)
  from "3.prems" obtain b ys' where ys: "ys = b # ys'" by (cases ys) auto
  show ?case
  proof (cases ys')
    case Nil
    with "3.prems" ys have "b = name @ sep # joinSep sep (v # va)" by simp
    then have "sep \<in> set b" by simp
    with "3.prems" ys show ?thesis by simp
  next
    case (Cons y ys'')
    with "3.prems" ys
    have eq: "name @ sep # joinSep sep (v # va) = b @ sep # joinSep sep (y # ys'')"
      by simp
    from "3.prems" ys have "sep \<notin> set name" "sep \<notin> set b" by simp_all
    from split_at_sep [OF eq this]
    have nb: "name = b" and j: "joinSep sep (v # va) = joinSep sep (y # ys'')" by simp_all
    from "3.IH" [OF j] "3.prems" ys Cons have "v # va = y # ys''" by simp
    with nb ys Cons show ?thesis by simp
  qed
qed


lemma below_prefix:
  "pn \<in> set (below prefix node) \<Longrightarrow> \<exists>suf. suf \<noteq> [] \<and> fst pn = prefix @ suf"
  and belowNames_prefix:
  "pn \<in> set (belowNames prefix names) \<Longrightarrow>
     \<exists>name suf. name \<in> fst ` set names \<and> fst pn = prefix @ name # suf"
proof (induction prefix node and prefix names arbitrary: pn and pn rule: below_belowNames.induct)
  case (1 path l opn rd)
  have "\<exists>info names. l = Inr info \<and> fiIsDir info \<and> rd = Inr names \<and>
      pn \<in> set (belowNames path names)"
  proof (cases l)
    case (Inl err)
    with "1.prems" show ?thesis by simp
  next
    case l: (Inr info)
    show ?thesis
    proof (cases rd)
      case (Inl err)
      with l "1.prems" show ?thesis by (cases "fiIsDir info") simp_all
    next
      case (Inr names)
      with l "1.prems" show ?thesis by (cases "fiIsDir info") simp_all
    qed
  qed
  then obtain info names where
    *: "l = Inr info" "fiIsDir info" "rd = Inr names" "pn \<in> set (belowNames path names)"
    by blast
  from "1.IH" [OF *] obtain name suf where "fst pn = path @ name # suf"
    by blast
  then show ?case by blast
next
  case (2 path)
  then show ?case by simp
next
  case (3 path name child names)
  from "3.prems" consider "pn = (path @ [name], child)"
    | "pn \<in> set (below (path @ [name]) child)"
    | "pn \<in> set (belowNames path names)"
    by auto
  then show ?case
  proof cases
    case 1
    then show ?thesis by force
  next
    case 2
    from "3.IH"(1) [OF 2] obtain suf where "fst pn = (path @ [name]) @ suf" by blast
    then show ?thesis by force
  next
    case 3
    from "3.IH"(2) [OF 3] show ?thesis by force
  qed
qed

lemma below_good:
  "wfNode W node \<Longrightarrow> \<forall>n \<in> set prefix. goodName W n \<Longrightarrow> pn \<in> set (below prefix node) \<Longrightarrow>
     \<forall>n \<in> set (fst pn). goodName W n"
  and belowNames_good:
  "wfNames W names \<Longrightarrow> \<forall>n \<in> set prefix. goodName W n \<Longrightarrow>
   pn \<in> set (belowNames prefix names) \<Longrightarrow>
     \<forall>n \<in> set (fst pn). goodName W n"
proof (induction prefix node and prefix names arbitrary: pn and pn rule: below_belowNames.induct)
  case (1 path l opn rd)
  have "\<exists>info names. l = Inr info \<and> fiIsDir info \<and> rd = Inr names \<and>
      pn \<in> set (belowNames path names)"
  proof (cases l)
    case (Inl err)
    with "1.prems"(3) show ?thesis by simp
  next
    case l: (Inr info)
    show ?thesis
    proof (cases rd)
      case (Inl err)
      with l "1.prems"(3) show ?thesis by (cases "fiIsDir info") simp_all
    next
      case (Inr names)
      with l "1.prems"(3) show ?thesis by (cases "fiIsDir info") simp_all
    qed
  qed
  then obtain info names where
    *: "l = Inr info" "fiIsDir info" "rd = Inr names" "pn \<in> set (belowNames path names)"
    by blast
  with "1.prems"(1) have "wfNames W names" by simp
  from "1.IH" [OF *(1,2,3) this "1.prems"(2) *(4)] show ?case .
next
  case (2 path)
  then show ?case by simp
next
  case (3 path name child names)
  from "3.prems"(1) have g: "goodName W name" and wc: "wfNode W child" and wn: "wfNames W names"
    by simp_all
  from g "3.prems"(2) have gp: "\<forall>n \<in> set (path @ [name]). goodName W n" by simp
  from "3.prems"(3) consider "pn = (path @ [name], child)"
    | "pn \<in> set (below (path @ [name]) child)"
    | "pn \<in> set (belowNames path names)"
    by auto
  then show ?case
  proof cases
    case 1
    with gp show ?thesis by simp
  next
    case 2
    from "3.IH"(1) [OF wc gp 2] show ?thesis .
  next
    case 3
    from "3.IH"(2) [OF wn "3.prems"(2) 3] show ?thesis .
  qed
qed

lemma below_distinct:
  "wfNode W node \<Longrightarrow> distinct (map fst (below prefix node))"
  and belowNames_distinct:
  "wfNames W names \<Longrightarrow> distinct (map fst names) \<Longrightarrow>
     distinct (map fst (belowNames prefix names))"
proof (induction prefix node and prefix names rule: below_belowNames.induct)
  case (1 path l opn rd)
  show ?case
  proof (cases l)
    case (Inl err)
    then show ?thesis by simp
  next
    case l: (Inr info)
    show ?thesis
    proof (cases "fiIsDir info")
      case False
      with l show ?thesis by simp
    next
      case True
      show ?thesis
      proof (cases rd)
        case (Inl err)
        with l True show ?thesis by simp
      next
        case (Inr names)
        with "1.prems" have "wfNames W names" "distinct (map fst names)" by simp_all
        from "1.IH" [OF l True Inr this] l True Inr show ?thesis by simp
      qed
    qed
  qed
next
  case (2 path)
  then show ?case by simp
next
  case (3 path name child names)
  from "3.prems"(1) have wc: "wfNode W child" and wn: "wfNames W names" by simp_all
  from "3.prems"(2) have fresh: "name \<notin> fst ` set names" and dn: "distinct (map fst names)"
    by auto
  have a: "path @ [name] \<notin> fst ` set (below (path @ [name]) child)"
  proof
    assume "path @ [name] \<in> fst ` set (below (path @ [name]) child)"
    then obtain pn where "pn \<in> set (below (path @ [name]) child)" "fst pn = path @ [name]"
      by auto
    with below_prefix [of pn "path @ [name]" child] show False by auto
  qed
  have b: "p \<notin> fst ` set (belowNames path names)"
    if "p = path @ [name] \<or> p \<in> fst ` set (below (path @ [name]) child)" for p
  proof
    assume "p \<in> fst ` set (belowNames path names)"
    then obtain pn where "pn \<in> set (belowNames path names)" "fst pn = p" by auto
    with belowNames_prefix [of pn path names] obtain name' suf where
      n': "name' \<in> fst ` set names" "p = path @ name' # suf" by auto
    from that have "\<exists>suf'. p = path @ name # suf'"
    proof
      assume "p = path @ [name]"
      then show ?thesis by simp
    next
      assume "p \<in> fst ` set (below (path @ [name]) child)"
      then obtain qn where "qn \<in> set (below (path @ [name]) child)" "fst qn = p" by auto
      with below_prefix [of qn "path @ [name]" child] show ?thesis by auto
    qed
    with n' have "name' = name" by auto
    with n'(1) fresh show False by simp
  qed
  from "3.IH"(1) [OF wc] have c: "distinct (map fst (below (path @ [name]) child))" .
  from "3.IH"(2) [OF wn dn] have d: "distinct (map fst (belowNames path names))" .
  from a b c d show ?case by auto
qed


lemma list_all2_map_eq:
  "list_all2 (\<lambda>x y. f y = g x) xs ys \<Longrightarrow> map f ys = map g xs"
  by (induction rule: list_all2_induct) auto

lemma scanned_Filenames:
  assumes "wfNode W (fsAt W sourceDir)"
    and "GatherDirectoryResources W sourceDir = (rs, None)"
  shows "map Filename rs = map (\<lambda>pn. joinSep (CHR ''/'') (fst pn)) (below [] (fsAt W sourceDir))"
proof -
  let ?B = "below [] (fsAt W sourceDir)"
  have all: "list_all2 (dirScanned W) ?B rs"
    using assms by (rule Walk_scanned)
  have "list_all2 (\<lambda>pn r. Filename r = joinSep (CHR ''/'') (fst pn)) ?B rs"
  proof (rule list.rel_mono_strong [OF all])
    fix pn r assume "dirScanned W pn r"
    then have f: "Filename r = ToSlash W (joinSep (Separator W) (fst pn))"
      by (simp add: dirScanned_def)
    assume "pn \<in> set ?B"
    with below_good [OF assms(1), of "[]" pn] have "\<forall>n \<in> set (fst pn). goodName W n"
      by simp
    then have "\<forall>n \<in> set (fst pn). Separator W \<notin> set n"
      by (simp add: goodName_def)
    from ToSlash_joinSep [OF this] f show "Filename r = joinSep (CHR ''/'') (fst pn)"
      by simp
  qed
  then show ?thesis by (rule list_all2_map_eq)
qed

lemma below_slash_paths_distinct:
  assumes "wfNode W node"
  shows "distinct (map (\<lambda>pn. joinSep (CHR ''/'') (fst pn)) (below [] node))"
proof -
  let ?P = "map fst (below [] node)"
  have d: "distinct ?P" using assms by (rule below_distinct)
  have "inj_on (joinSep (CHR ''/'')) (set ?P)"
  proof (rule inj_onI)
    fix p q assume pq: "p \<in> set ?P" "q \<in> set ?P"
      and eq: "joinSep (CHR ''/'') p = joinSep (CHR ''/'') q"
    from pq obtain pn qn where
      pn: "pn \<in> set (below [] node)" "fst pn = p" and qn: "qn \<in> set (below [] node)" "fst qn = q"
      by auto
    from below_prefix [OF pn(1)] pn(2) have p: "p \<noteq> []" by auto
    from below_prefix [OF qn(1)] qn(2) have q: "q \<noteq> []" by auto
    from below_good [OF assms _ pn(1)] pn(2) have gp: "\<forall>n \<in> set p. CHR ''/'' \<notin> set n"
      by (simp add: goodName_def)
    from below_good [OF assms _ qn(1)] qn(2) have gq: "\<forall>n \<in> set q. CHR ''/'' \<notin> set n"
      by (simp add: goodName_def)
    from eq p q gp gq show "p = q" by (rule joinSep_inj)
  qed
  with d have "distinct (map (joinSep (CHR ''/'')) ?P)"
    by (rule iffD2 [OF distinct_map, OF conjI])
  then show ?thesis by (simp only: map_map comp_def)
qed

lemma exTree_wf: "wfNode exWorld (fsAt exWorld ''app'')"
  by (simp add: exWorld_def exTree_def goodName_def)

lemma exScanned: "GatherDirectoryResources exWorld ''app'' = (exScan, None)"
  by (simp add: eval_defs ex_defs exScan_def)

text \<open>
  Claim C6. When the directory scan ends without an error, it has visited every entry
  under the root and not the root itself, and it returns exactly one descriptor per
  entry, in the order of the walk; the path of each descriptor is the names from the
  root down to the entry, joined by forward slashes. No two descriptors have the same
  path.
\<close>

theorem GatherDirectoryResources_paths:
  assumes "wfNode W (fsAt W sourceDir)"
    and "GatherDirectoryResources W sourceDir = (rs, None)"
  shows "map Filename rs
           = map (\<lambda>pn. joinSep (CHR ''/'') (fst pn)) (below [] (fsAt W sourceDir)) \<and>
         distinct (map Filename rs)"
  using scanned_Filenames [OF assms] below_slash_paths_distinct [OF assms(1)]
  by simp

theorem GatherDirectoryResources_paths_witness:
  "wfNode exWorld (fsAt exWorld ''app'') \<and>
   GatherDirectoryResources exWorld ''app'' = (exScan, None) \<and>
   map fst (below [] (fsAt exWorld ''app'')) = [[''logs''], [''main'']] \<and>
   map Filename exScan = [''logs'', ''main''] \<and> distinct (map Filename exScan)"
proof -
  have b: "map fst (below [] (fsAt exWorld ''app'')) = [[''logs''], [''main'']]"
    by (simp add: exWorld_def exTree_def exDirInfo_def exMainInfo_def)
  from GatherDirectoryResources_paths [OF exTree_wf exScanned]
  have "map Filename exScan
           = map (\<lambda>pn. joinSep (CHR ''/'') (fst pn)) (below [] (fsAt exWorld ''app'')) \<and>
        distinct (map Filename exScan)" .
  moreover have "map (\<lambda>pn. joinSep (CHR ''/'') (fst pn)) (below [] (fsAt exWorld ''app''))
      = [''logs'', ''main'']"
    by (simp add: exWorld_def exTree_def exDirInfo_def exMainInfo_def)
  ultimately show ?thesis using exTree_wf exScanned b by simp
qed

text \<open>No entry is skipped: one entry that cannot be read makes the scan fail.\<close>

lemma scan_fails_on_unreadable_entry:
  assumes "wfNode W (fsAt W sourceDir)"
    and "pn \<in> set (below [] (fsAt W sourceDir))"
    and "nLstat (snd pn) = Inl e \<or>
         (\<exists>info. nLstat (snd pn) = Inr info \<and> \<not> fiIsDir info \<and>
            (nOpen (snd pn) = Inl e \<or> (\<exists>f. nOpen (snd pn) = Inr f \<and> fRead f = Inl e)))"
  shows "\<exists>err. snd (GatherDirectoryResources W sourceDir) = Some err"
proof (rule ccontr)
  assume "\<not> (\<exists>err. snd (GatherDirectoryResources W sourceDir) = Some err)"
  then have "snd (GatherDirectoryResources W sourceDir) = None" by auto
  then have "GatherDirectoryResources W sourceDir = (fst (GatherDirectoryResources W sourceDir), None)"
    by (metis prod.collapse)
  from Walk_scanned [OF assms(1) this]
  have "list_all2 (dirScanned W) (below [] (fsAt W sourceDir))
          (fst (GatherDirectoryResources W sourceDir))" .
  with assms(2) obtain r where "dirScanned W pn r"
    by (auto simp: list_all2_conv_all_nth in_set_conv_nth)
  with assms(3) show False
    by (auto simp: dirScanned_def)
qed

text \<open>
  Claim C4. The scan does stop at the first entry that cannot be opened, stat'd or
  read, with that entry's error. But with the error it returns the descriptors made
  before the failure, not an empty list: the function ends in
  \<^verbatim>\<open>return resources, walkErr\<close>, where \<^verbatim>\<open>GatherArchiveResources\<close> returns
  \<^verbatim>\<open>nil, err\<close> at every failure. Here \<^verbatim>\<open>main\<close> is scanned and \<^verbatim>\<open>secret\<close> cannot be
  opened.
\<close>

theorem GatherDirectoryResources_partial_list_with_error:
  "GatherDirectoryResources exLocked ''app''
     = ([\<lparr>Filename = ''main'', Mode = 420, SHA1 = ''sha1:hello'', Size = 5\<rparr>],
        Some (IOError (OSError ''permission denied'')))"
  by (simp add: eval_defs ex_defs exLocked_def)

subsection \<open>Scanning what was packed\<close>


lemma ModeDir_nonzero: "ModeDir \<noteq> 0"
  by (simp add: ModeDir_def)

lemma ModeDir_bit: "and (or m ModeDir) ModeDir \<noteq> 0"
  by (simp add: ModeDir_nonzero)











end
